theory Spec2Isabelle
  imports Complex_Main "HOL-Library.Word"
begin

section \<open>The WAV decoder of hyperwhisper: \<open>read_wav\<close> in \<open>audio_converter.cpp\<close>\<close>

text \<open>
  The development embeds the function \<open>read_wav\<close> of
  \<open>app/src/main/cpp/audio_converter.cpp\<close>. The function opens a file, reads the 44-byte
  \<open>WavHeader\<close> struct with one \<open>fread\<close>, compares two tags, reads the samples with a
  second \<open>fread\<close>, converts them to \<open>float\<close> and averages stereo pairs.

  Modelling decisions:
  \<^item> a file is the list of its bytes; the file system is a partial map from names to
    byte lists; a \<open>FILE*\<close> is a record of the contents and the read position;
  \<^item> the reference arguments \<open>pcm_data\<close> and \<open>sample_rate\<close> and the number of open
    \<open>FILE\<close> handles of the process form the state that is passed through the call;
  \<^item> the \<open>bool\<close> result together with the \<open>LOGE\<close> line that precedes each
    \<open>return false\<close> is the outcome; the integer division by zero of line 62 is an
    outcome of its own, since C++ leaves it undefined;
  \<^item> a \<open>float\<close> is the real number it denotes, and every floating-point operation is
    the exact operation followed by rounding to the nearest binary32 value, ties to even;
  \<^item> the struct is filled by copying the bytes: the targets (Android on ARM and x86) are
    little-endian and the struct has no padding, so a field is the little-endian number
    of the bytes at its offset;
  \<^item> memory allocation is assumed to succeed.
\<close>

subsection \<open>binary32 arithmetic\<close>

text \<open>
  Every finite binary32 value is an integer multiple of \<open>2\<^sup>-\<^sup>1\<^sup>4\<^sup>9\<close> whose
  magnitude, counted in these units, keeps at most 24 significant bits.
  \<open>excess_bits n\<close> is the number of low bits of \<open>n\<close> beyond these 24, \<open>rne\<close> rounds a real to
  the nearest integer with ties to even, and \<open>f32_round\<close> rounds a real to the nearest
  binary32 value (subnormals included; overflow to infinity is not modelled, the decoder
  rounds no value of magnitude above \<open>2\<^sup>3\<^sup>1\<close>).
\<close>

function excess_bits :: "nat \<Rightarrow> nat" where
  "excess_bits n = (if n < 2 ^ 24 then 0 else Suc (excess_bits (n div 2)))"
  by pat_completeness auto
termination
proof (relation "measure (\<lambda>n. n)")
  show "wf (measure (\<lambda>n. n))" by simp
next
  fix n :: nat
  assume "\<not> n < 2 ^ 24"
  then have "0 < n" by (cases n) simp_all
  then show "(n div 2, n) \<in> measure (\<lambda>n. n)" by simp
qed

declare excess_bits.simps [simp del]

definition rne :: "real \<Rightarrow> int" where
  "rne y = (let f = \<lfloor>y\<rfloor>; d = y - of_int f
            in if 1 / 2 < d \<or> (d = 1 / 2 \<and> odd f) then f + 1 else f)"

definition f32_scale :: real where
  "f32_scale = 2 ^ 149"

definition f32_round :: "real \<Rightarrow> real" where
  "f32_round r =
     (let q = \<bar>r\<bar> * f32_scale; k = excess_bits (nat \<lfloor>q\<rfloor>)
      in sgn r * of_int (rne (q / 2 ^ k) * 2 ^ k) / f32_scale)"

text \<open>\<open>static_cast<float>(i)\<close>, \<open>a + b\<close> and \<open>a / b\<close> on \<open>float\<close>.\<close>

definition f32_of_int :: "int \<Rightarrow> real" where
  "f32_of_int x = f32_round (of_int x)"

definition f32_add :: "real \<Rightarrow> real \<Rightarrow> real" where
  "f32_add a b = f32_round (a + b)"

definition f32_div :: "real \<Rightarrow> real \<Rightarrow> real" where
  "f32_div a b = f32_round (a / b)"

subsection \<open>Bytes, the header struct and the stream\<close>

type_synonym byte = "8 word"

text \<open>The little-endian number of a byte sequence.\<close>

fun le_nat :: "byte list \<Rightarrow> nat" where
  "le_nat [] = 0"
| "le_nat (b # bs) = unat b + 256 * le_nat bs"

definition field :: "nat \<Rightarrow> nat \<Rightarrow> byte list \<Rightarrow> byte list" where
  "field off len bs = take len (drop off bs)"

text \<open>\<open>struct WavHeader\<close>, lines 12 to 26, in declaration order.\<close>

record WavHeader =
  riff :: "byte list"
  file_size :: "32 word"
  wave :: "byte list"
  fmt :: "byte list"
  fmt_size :: "32 word"
  audio_format :: "16 word"
  num_channels :: "16 word"
  sample_rate :: "32 word"
  byte_rate :: "32 word"
  block_align :: "16 word"
  bits_per_sample :: "16 word"
  data :: "byte list"
  data_size :: "32 word"

text \<open>The struct as \<open>fread\<close> leaves it after copying 44 bytes over it.\<close>

definition read_header :: "byte list \<Rightarrow> WavHeader" where
  "read_header bs =
     \<lparr> riff = field 0 4 bs,
       file_size = word_of_nat (le_nat (field 4 4 bs)),
       wave = field 8 4 bs,
       fmt = field 12 4 bs,
       fmt_size = word_of_nat (le_nat (field 16 4 bs)),
       audio_format = word_of_nat (le_nat (field 20 2 bs)),
       num_channels = word_of_nat (le_nat (field 22 2 bs)),
       sample_rate = word_of_nat (le_nat (field 24 4 bs)),
       byte_rate = word_of_nat (le_nat (field 28 4 bs)),
       block_align = word_of_nat (le_nat (field 32 2 bs)),
       bits_per_sample = word_of_nat (le_nat (field 34 2 bs)),
       data = field 36 4 bs,
       data_size = word_of_nat (le_nat (field 40 4 bs)) \<rparr>"

text \<open>The string literals \<open>"RIFF"\<close> and \<open>"WAVE"\<close> that \<open>memcmp\<close> compares with.\<close>

definition RIFF_tag :: "byte list" where
  "RIFF_tag = [0x52, 0x49, 0x46, 0x46]"

definition WAVE_tag :: "byte list" where
  "WAVE_tag = [0x57, 0x41, 0x56, 0x45]"

record FILE =
  content :: "byte list"
  pos :: nat

definition fopen :: "(string \<rightharpoonup> byte list) \<Rightarrow> string \<Rightarrow> FILE option" where
  "fopen fs filename =
     (case fs filename of None \<Rightarrow> None | Some bs \<Rightarrow> Some \<lparr> content = bs, pos = 0 \<rparr>)"

text \<open>
  \<open>fread(ptr, size, nmemb, file)\<close> copies up to \<open>size * nmemb\<close> bytes, as many as the
  stream still has, and returns the number of complete items among them.
\<close>

definition fread :: "nat \<Rightarrow> nat \<Rightarrow> FILE \<Rightarrow> byte list \<times> nat \<times> FILE" where
  "fread sz nmemb file =
     (let got = take (sz * nmemb) (drop (pos file) (content file))
      in (got, length got div sz, file\<lparr> pos := pos file + length got \<rparr>))"

text \<open>The items of a buffer of \<open>int16_t\<close> and of \<open>int32_t\<close>.\<close>

fun int16_items :: "byte list \<Rightarrow> 16 word list" where
  "int16_items (b0 # b1 # bs) = word_of_nat (le_nat [b0, b1]) # int16_items bs"
| "int16_items _ = []"

fun int32_items :: "byte list \<Rightarrow> 32 word list" where
  "int32_items (b0 # b1 # b2 # b3 # bs) =
     word_of_nat (le_nat [b0, b1, b2, b3]) # int32_items bs"
| "int32_items _ = []"

subsection \<open>The state around a call and its outcome\<close>

text \<open>
  \<open>pcm_data\<close> and \<open>sample_rate_out\<close> are the caller's variables bound to the reference
  parameters \<open>pcm_data\<close> and \<open>sample_rate\<close> (an \<open>int\<close>); \<open>open_files\<close> counts the
  \<open>FILE\<close> handles the process holds.
\<close>

record machine =
  pcm_data :: "real list"
  sample_rate_out :: int
  open_files :: nat

text \<open>
  One constructor for each \<open>LOGE\<close> line that precedes a \<open>return false\<close>:
  "Failed to open WAV file" (line 35), "Failed to read WAV header" (42),
  "Invalid WAV file format" (50), "Unsupported bit depth: %d" (91) with the value it
  prints, "Failed to read PCM data" (69 and 81).
\<close>

datatype decode_error =
  OpenError
  | TruncatedHeaderError
  | InvalidFormatError
  | UnsupportedBitDepthError nat
  | TruncatedPayloadError

text \<open>
  \<open>Success\<close> is \<open>return true\<close>, \<open>Failure e\<close> is \<open>return false\<close> after the log line of
  \<open>e\<close>, and \<open>DivisionByZero\<close> is the undefined integer division of line 62 when
  \<open>bits_per_sample / 8\<close> is 0; the state paired with it is the state at that line.
\<close>

datatype outcome = Success | Failure decode_error | DivisionByZero

definition fclose :: "machine \<Rightarrow> machine" where
  "fclose m = m\<lparr> open_files := open_files m - 1 \<rparr>"

text \<open>\<open>pcm_data.resize(n)\<close>: keeps a prefix, appends zeros.\<close>

definition resize :: "real list \<Rightarrow> nat \<Rightarrow> real list" where
  "resize xs n = take n xs @ replicate (n - length xs) 0"

subsection \<open>The loops\<close>

text \<open>Lines 75 to 77 and 87 to 89: \<open>pcm_data[i] = static_cast<float>(samples[i]) / c\<close>.\<close>

definition convert_int16 :: "nat \<Rightarrow> 16 word list \<Rightarrow> real list \<Rightarrow> real list" where
  "convert_int16 num_samples samples pcm =
     fold (\<lambda>i p. p[i := f32_div (f32_of_int (sint (samples ! i))) 32768])
       [0..<num_samples] pcm"

definition convert_int32 :: "nat \<Rightarrow> 32 word list \<Rightarrow> real list \<Rightarrow> real list" where
  "convert_int32 num_samples samples pcm =
     fold (\<lambda>i p. p[i := f32_div (f32_of_int (sint (samples ! i))) 2147483648])
       [0..<num_samples] pcm"

text \<open>Lines 99 to 102: the new vector \<open>mono_data\<close> and the loop that fills it.\<close>

definition stereo_to_mono :: "nat \<Rightarrow> real list \<Rightarrow> real list" where
  "stereo_to_mono num_samples pcm =
     (let mono_data = replicate (num_samples div 2) 0
      in fold (\<lambda>i mono. mono[i := f32_div (f32_add (pcm ! (i * 2)) (pcm ! (i * 2 + 1))) 2])
           [0..<length mono_data] mono_data)"

subsection \<open>\<open>read_wav\<close>\<close>

text \<open>Lines 96 to 108, the common end of the 16-bit and the 32-bit branch.\<close>

definition downmix_and_close :: "WavHeader \<Rightarrow> nat \<Rightarrow> machine \<Rightarrow> outcome \<times> machine" where
  "downmix_and_close header num_samples m =
     (let m = (if num_channels header = 2
               then m\<lparr> pcm_data := stereo_to_mono num_samples (pcm_data m) \<rparr>
               else m)
      in (Success, fclose m))"

definition read_wav ::
  "(string \<rightharpoonup> byte list) \<Rightarrow> string \<Rightarrow> machine \<Rightarrow> outcome \<times> machine" where
  "read_wav fs filename m =
     (case fopen fs filename of
        None \<Rightarrow> (Failure OpenError, m)
      | Some file \<Rightarrow>
          let m = m\<lparr> open_files := open_files m + 1 \<rparr>;
              (buf, got, file) = fread 44 1 file
          in if got \<noteq> 1 then (Failure TruncatedHeaderError, fclose m)
             else
               let header = read_header buf
               in if riff header \<noteq> RIFF_tag \<or> wave header \<noteq> WAVE_tag
                  then (Failure InvalidFormatError, fclose m)
                  else
                    let m = m\<lparr> sample_rate_out := sint (sample_rate header) \<rparr>
                    in if unat (bits_per_sample header) div 8 = 0 then (DivisionByZero, m)
                       else
                         let num_samples =
                               unat (data_size header) div (unat (bits_per_sample header) div 8);
                             m = m\<lparr> pcm_data := resize (pcm_data m) num_samples \<rparr>
                         in if bits_per_sample header = 16 then
                              (let (buf, got, file) = fread 2 num_samples file
                               in if got \<noteq> num_samples
                                  then (Failure TruncatedPayloadError, fclose m)
                                  else downmix_and_close header num_samples
                                         (m\<lparr> pcm_data :=
                                              convert_int16 num_samples (int16_items buf)
                                                (pcm_data m) \<rparr>))
                            else if bits_per_sample header = 32 then
                              (let (buf, got, file) = fread 4 num_samples file
                               in if got \<noteq> num_samples
                                  then (Failure TruncatedPayloadError, fclose m)
                                  else downmix_and_close header num_samples
                                         (m\<lparr> pcm_data :=
                                              convert_int32 num_samples (int32_items buf)
                                                (pcm_data m) \<rparr>))
                            else (Failure (UnsupportedBitDepthError
                                             (unat (bits_per_sample header))), fclose m))"

subsection \<open>Notions for stating properties of a call\<close>

text \<open>
  The header a file of at least 44 bytes yields (\<open>header_of\<close>), the sample count of
  line 62, the bytes after the header, the conversion of one sample (lines 76 and 88),
  the sequence of converted samples (\<open>normalized\<close>), the average of line 101
  (\<open>float_mean\<close>) and the sequence of averaged pairs (\<open>mono_of\<close>), the number of whole
  samples of the declared width that the payload holds (\<open>readable_samples\<close>), and the
  sequence a successful call hands back (\<open>decoded\<close>). The sections on the loops and on
  the paths of \<open>read_wav\<close> prove that the code computes them.
\<close>

definition header_of :: "byte list \<Rightarrow> WavHeader" where
  "header_of bytes = read_header (take 44 bytes)"

definition sample_count :: "WavHeader \<Rightarrow> nat" where
  "sample_count h = unat (data_size h) div (unat (bits_per_sample h) div 8)"

definition payload :: "byte list \<Rightarrow> byte list" where
  "payload bytes = drop 44 bytes"

definition sample16 :: "16 word \<Rightarrow> real" where
  "sample16 w = f32_div (f32_of_int (sint w)) 32768"

definition sample32 :: "32 word \<Rightarrow> real" where
  "sample32 w = f32_div (f32_of_int (sint w)) 2147483648"

definition normalized :: "byte list \<Rightarrow> real list" where
  "normalized bytes =
     (let h = header_of bytes; n = sample_count h
      in if bits_per_sample h = 16 then map sample16 (int16_items (take (2 * n) (payload bytes)))
         else map sample32 (int32_items (take (4 * n) (payload bytes))))"

definition float_mean :: "real \<Rightarrow> real \<Rightarrow> real" where
  "float_mean a b = f32_div (f32_add a b) 2"

definition mono_of :: "real list \<Rightarrow> real list" where
  "mono_of xs = map (\<lambda>i. float_mean (xs ! (2 * i)) (xs ! (2 * i + 1))) [0..<length xs div 2]"

definition readable_samples :: "byte list \<Rightarrow> nat" where
  "readable_samples bytes =
     length (payload bytes) div (unat (bits_per_sample (header_of bytes)) div 8)"

definition decoded :: "byte list \<Rightarrow> real list" where
  "decoded bytes =
     (if num_channels (header_of bytes) = 2 then mono_of (normalized bytes)
      else normalized bytes)"

text \<open>
  Two files agree on everything \<open>read_wav\<close> interprets: the payload and the six
  header fields it reads.
\<close>

definition same_interpreted_fields :: "byte list \<Rightarrow> byte list \<Rightarrow> bool" where
  "same_interpreted_fields b1 b2 \<longleftrightarrow>
     drop 44 b1 = drop 44 b2
     \<and> riff (header_of b1) = riff (header_of b2)
     \<and> wave (header_of b1) = wave (header_of b2)
     \<and> num_channels (header_of b1) = num_channels (header_of b2)
     \<and> sample_rate (header_of b1) = sample_rate (header_of b2)
     \<and> bits_per_sample (header_of b1) = bits_per_sample (header_of b2)
     \<and> data_size (header_of b1) = data_size (header_of b2)"

text \<open>
  What a call does on a file that holds a full header, as one case distinction over the
  header; \<open>read_wav_full\<close> below proves that \<open>read_wav\<close> computes it.
\<close>

definition read_wav_summary :: "byte list \<Rightarrow> machine \<Rightarrow> outcome \<times> machine" where
  "read_wav_summary bytes m =
     (let h = header_of bytes;
          m' = m\<lparr> sample_rate_out := sint (sample_rate h) \<rparr>;
          m'' = m'\<lparr> pcm_data := resize (pcm_data m) (sample_count h) \<rparr>
      in if riff h \<noteq> RIFF_tag \<or> wave h \<noteq> WAVE_tag then (Failure InvalidFormatError, m)
         else if unat (bits_per_sample h) div 8 = 0
           then (DivisionByZero, m'\<lparr> open_files := open_files m + 1 \<rparr>)
         else if bits_per_sample h \<noteq> 16 \<and> bits_per_sample h \<noteq> 32
           then (Failure (UnsupportedBitDepthError (unat (bits_per_sample h))), m'')
         else if readable_samples bytes < sample_count h
           then (Failure TruncatedPayloadError, m'')
         else (Success, m'\<lparr> pcm_data := decoded bytes \<rparr>))"

subsection \<open>Example files\<close>

text \<open>
  \<open>caller_state\<close> is the state in which \<open>nativeTranscribe\<close> calls \<open>read_wav\<close>
  (\<open>whisper_jni.cpp\<close>, lines 73 to 75): an empty vector, \<open>sample_rate = 0\<close>; no file open.
\<close>

definition caller_state :: machine where
  "caller_state = \<lparr> pcm_data = [], sample_rate_out = 0, open_files = 0 \<rparr>"

text \<open>
  A canonical stereo 16-bit file at 16000 Hz with the interleaved samples
  16384, -16384, 8192, 8192: the tags, \<open>file_size = 44\<close>, \<open>fmt_size = 16\<close>,
  \<open>audio_format = 1\<close>, \<open>num_channels = 2\<close>, \<open>sample_rate = 16000\<close>, \<open>byte_rate = 64000\<close>,
  \<open>block_align = 4\<close>, \<open>bits_per_sample = 16\<close>, \<open>data_size = 8\<close>, then the payload.
\<close>

definition stereo16_example :: "byte list" where
  "stereo16_example =
     [0x52, 0x49, 0x46, 0x46,  0x2C, 0, 0, 0,  0x57, 0x41, 0x56, 0x45,
      0x66, 0x6D, 0x74, 0x20,  0x10, 0, 0, 0,  0x01, 0,  0x02, 0,
      0x80, 0x3E, 0, 0,  0x00, 0xFA, 0, 0,  0x04, 0,  0x10, 0,
      0x64, 0x61, 0x74, 0x61,  0x08, 0, 0, 0,
      0x00, 0x40,  0x00, 0xC0,  0x00, 0x20,  0x00, 0x20]"

text \<open>
  The same file with the same payload and the same six interpreted fields, and with
  \<open>file_size\<close>, \<open>fmt\<close>, \<open>fmt_size\<close>, \<open>audio_format\<close>, \<open>byte_rate\<close>, \<open>block_align\<close> and the
  \<open>data\<close> tag replaced by other values.
\<close>

definition noncanonical_example :: "byte list" where
  "noncanonical_example =
     [0x52, 0x49, 0x46, 0x46,  0xFF, 0xFF, 0xFF, 0xFF,  0x57, 0x41, 0x56, 0x45,
      0x4A, 0x55, 0x4E, 0x4B,  0x00, 0, 0, 0,  0x03, 0,  0x02, 0,
      0x80, 0x3E, 0, 0,  0x01, 0x00, 0, 0,  0x07, 0,  0x10, 0,
      0x4C, 0x49, 0x53, 0x54,  0x08, 0, 0, 0,
      0x00, 0x40,  0x00, 0xC0,  0x00, 0x20,  0x00, 0x20]"

text \<open>
  Variants of \<open>stereo16_example\<close>: its first 43 bytes; the tag \<open>RIFX\<close> and the tag
  \<open>riff\<close> in place of \<open>RIFF\<close>; \<open>bits_per_sample\<close> 8 and 0; the last sample cut off;
  \<open>data_size = 0\<close> and no payload; the sample rate \<open>2\<^sup>3\<^sup>1\<close>.
\<close>

definition short_example :: "byte list" where
  "short_example = take 43 stereo16_example"

definition rifx_example :: "byte list" where
  "rifx_example = [0x52, 0x49, 0x46, 0x58] @ drop 4 stereo16_example"

definition lowercase_example :: "byte list" where
  "lowercase_example = [0x72, 0x69, 0x66, 0x66] @ drop 4 stereo16_example"

definition depth8_example :: "byte list" where
  "depth8_example = take 34 stereo16_example @ [8, 0] @ drop 36 stereo16_example"

definition depth0_example :: "byte list" where
  "depth0_example = take 34 stereo16_example @ [0, 0] @ drop 36 stereo16_example"

definition truncated_example :: "byte list" where
  "truncated_example = take 50 stereo16_example"

definition empty_stereo_example :: "byte list" where
  "empty_stereo_example = take 40 stereo16_example @ [0, 0, 0, 0]"

definition high_rate_example :: "byte list" where
  "high_rate_example = take 24 stereo16_example @ [0, 0, 0, 0x80] @ drop 28 stereo16_example"

text \<open>
  Mono files: 16-bit with the samples 16384, -16384; 32-bit with no payload; 32-bit with
  the samples 2147483647 and -2147483648, the largest and the smallest \<open>int32_t\<close>.
\<close>

definition mono16_example :: "byte list" where
  "mono16_example =
     take 22 stereo16_example @ [1, 0] @ take 16 (drop 24 stereo16_example) @ [4, 0, 0, 0]
       @ [0x00, 0x40, 0x00, 0xC0]"

definition empty_mono32_example :: "byte list" where
  "empty_mono32_example =
     take 22 stereo16_example @ [1, 0] @ take 10 (drop 24 stereo16_example) @ [32, 0]
       @ take 4 (drop 36 stereo16_example) @ [0, 0, 0, 0]"

definition max32_example :: "byte list" where
  "max32_example =
     take 22 stereo16_example @ [1, 0] @ take 10 (drop 24 stereo16_example) @ [32, 0]
       @ take 4 (drop 36 stereo16_example) @ [8, 0, 0, 0]
       @ [0xFF, 0xFF, 0xFF, 0x7F,  0x00, 0x00, 0x00, 0x80]"

text \<open>
  A stereo 32-bit file with one frame: the left sample 2147483647, the right sample 128.
\<close>

definition stereo32_example :: "byte list" where
  "stereo32_example =
     take 34 stereo16_example @ [32, 0] @ take 8 (drop 36 stereo16_example)
       @ [0xFF, 0xFF, 0xFF, 0x7F,  0x80, 0x00, 0x00, 0x00]"

text \<open>A file system that holds them; it has no file \<open>missing.wav\<close>.\<close>

definition example_fs :: "string \<rightharpoonup> byte list" where
  "example_fs =
     [''stereo16.wav'' \<mapsto> stereo16_example,
      ''noncanonical.wav'' \<mapsto> noncanonical_example,
      ''short.wav'' \<mapsto> short_example,
      ''rifx.wav'' \<mapsto> rifx_example,
      ''lowercase.wav'' \<mapsto> lowercase_example,
      ''depth8.wav'' \<mapsto> depth8_example,
      ''depth0.wav'' \<mapsto> depth0_example,
      ''truncated.wav'' \<mapsto> truncated_example,
      ''empty_stereo.wav'' \<mapsto> empty_stereo_example,
      ''high_rate.wav'' \<mapsto> high_rate_example,
      ''mono16.wav'' \<mapsto> mono16_example,
      ''empty_mono32.wav'' \<mapsto> empty_mono32_example,
      ''max32.wav'' \<mapsto> max32_example,
      ''stereo32.wav'' \<mapsto> stereo32_example]"

section \<open>Facts about binary32 rounding\<close>

text \<open>
  \<open>excess_bits n\<close> is the least \<open>k\<close> with \<open>n div 2 ^ k < 2 ^ 24\<close>. Rounding leaves a
  value with at most 24 significant bits as it is (\<open>f32_round_exact_scaled\<close>,
  \<open>f32_round_dyadic\<close>), never crosses a power of two (\<open>f32_round_abs_le\<close>), and the
  division of a rounded value by a power of two is exact above the subnormal range
  (\<open>f32_round_scaled_down\<close>). Hence a 16-bit sample is converted exactly, the mean of
  two of them is exact, and a 32-bit sample is rounded once, by the conversion from
  \<open>int32_t\<close> to \<open>float\<close>. Rounding moves a value of magnitude at most 2 by at most
  \<open>2\<^sup>-\<^sup>2\<^sup>4\<close> (\<open>f32_round_error_2\<close>); every converted sample is a multiple of
  \<open>2\<^sup>-\<^sup>3\<^sup>1\<close>, so the average of line 101 rounds the sum of two samples and halves it
  exactly (\<open>float_mean_halved\<close>), within \<open>2\<^sup>-\<^sup>2\<^sup>5\<close> of their mean (\<open>float_mean_error\<close>).
\<close>

lemma excess_bits_small: "n < 2 ^ 24 \<Longrightarrow> excess_bits n = 0"
  by (simp add: excess_bits.simps)

lemma excess_bits_large: "\<not> n < 2 ^ 24 \<Longrightarrow> excess_bits n = Suc (excess_bits (n div 2))"
  by (subst excess_bits.simps) simp

lemma excess_bits_le: "n div 2 ^ j < 2 ^ 24 \<Longrightarrow> excess_bits n \<le> j"
proof (induction j arbitrary: n)
  case 0
  then show ?case by (simp add: excess_bits_small)
next
  case (Suc j)
  show ?case
  proof (cases "n < 2 ^ 24")
    case True
    then show ?thesis by (simp add: excess_bits_small)
  next
    case False
    have "(n div 2) div 2 ^ j = n div 2 ^ Suc j"
      by (simp add: div_mult2_eq)
    with Suc.prems have "excess_bits (n div 2) \<le> j"
      by (intro Suc.IH) simp
    with False show ?thesis by (simp add: excess_bits_large)
  qed
qed

lemma excess_bits_div: "n div 2 ^ excess_bits n < 2 ^ 24"
proof (induction n rule: excess_bits.induct)
  case (1 n)
  show ?case
  proof (cases "n < 2 ^ 24")
    case True
    then show ?thesis by (simp add: excess_bits_small)
  next
    case False
    with 1 have "(n div 2) div 2 ^ excess_bits (n div 2) < 2 ^ 24" by simp
    with False show ?thesis by (simp add: excess_bits_large div_mult2_eq)
  qed
qed

lemma excess_bits_gt: "2 ^ (24 + j) \<le> n \<Longrightarrow> j < excess_bits n"
proof (induction j arbitrary: n)
  case 0
  then have "\<not> n < 2 ^ 24" by simp
  then show ?case by (simp add: excess_bits_large)
next
  case (Suc j)
  have "(2::nat) ^ 24 \<le> 2 ^ (24 + Suc j)"
    by (rule power_increasing) simp_all
  with Suc.prems have big: "\<not> n < 2 ^ 24" by simp
  have e: "(2::nat) ^ (24 + Suc j) = 2 ^ (24 + j) * 2" by (simp add: power_add)
  from Suc.prems have "2 ^ (24 + j) * 2 \<le> n" unfolding e .
  then have "2 ^ (24 + j) \<le> n div 2"
    by (simp add: less_eq_div_iff_mult_less_eq)
  then have "j < excess_bits (n div 2)" by (rule Suc.IH)
  with big show ?case by (simp add: excess_bits_large)
qed

lemma rne_of_int: "rne (of_int z) = z"
  by (simp add: rne_def)

lemma rne_le: "y \<le> of_int m \<Longrightarrow> rne y \<le> m"
proof -
  assume h: "y \<le> of_int m"
  show ?thesis
  proof (cases "y = of_int m")
    case True
    then show ?thesis by (simp add: rne_of_int)
  next
    case False
    with h have "y < of_int m" by simp
    then have "\<lfloor>y\<rfloor> < m" by (simp add: floor_less_iff)
    then show ?thesis by (simp add: rne_def Let_def)
  qed
qed

lemma rne_nonneg: "0 \<le> y \<Longrightarrow> 0 \<le> rne y"
  by (simp add: rne_def Let_def)

lemma f32_scale_pos: "0 < f32_scale"
  by (simp add: f32_scale_def)

lemma f32_round_0: "f32_round 0 = 0"
  by (simp add: f32_round_def)

lemma f32_round_exact:
  assumes "\<bar>r\<bar> * f32_scale = of_nat n" and "2 ^ excess_bits n dvd n"
  shows "f32_round r = r"
proof -
  let ?k = "excess_bits n"
  from assms(2) obtain c where c: "n = 2 ^ ?k * c" by (auto simp: dvd_def)
  have "real n / 2 ^ ?k = real c"
    by (subst c) simp
  then have "rne (real n / 2 ^ ?k) = int c"
    using rne_of_int [of "int c"] by simp
  then have "real_of_int (rne (real n / 2 ^ ?k) * 2 ^ ?k) = real n"
    by (subst (3) c) simp
  then have "f32_round r = sgn r * real n / f32_scale"
    by (simp add: f32_round_def Let_def assms(1))
  also have "\<dots> = sgn r * \<bar>r\<bar>"
    using f32_scale_pos by (simp add: assms(1) [symmetric])
  also have "\<dots> = r" by (simp add: sgn_mult_abs)
  finally show ?thesis .
qed

lemma f32_round_exact_scaled:
  assumes "\<bar>r\<bar> * f32_scale = of_nat (m * 2 ^ j)" and "m \<le> 2 ^ 24"
  shows "f32_round r = r"
proof (rule f32_round_exact [OF assms(1)])
  show "2 ^ excess_bits (m * 2 ^ j) dvd m * 2 ^ j"
  proof (cases "m = 2 ^ 24")
    case True
    have "excess_bits (m * 2 ^ j) \<le> Suc j"
      by (rule excess_bits_le) (simp add: True)
    then have "(2::nat) ^ excess_bits (m * 2 ^ j) dvd 2 ^ Suc j"
      by (rule le_imp_power_dvd)
    also have "(2::nat) ^ Suc j dvd m * 2 ^ j"
      by (simp add: True)
    finally show ?thesis .
  next
    case False
    with assms(2) have "m < 2 ^ 24" by simp
    then have "excess_bits (m * 2 ^ j) \<le> j"
      by (intro excess_bits_le) simp
    then have "(2::nat) ^ excess_bits (m * 2 ^ j) dvd 2 ^ j"
      by (simp add: le_imp_power_dvd)
    then show ?thesis by (rule dvd_mult)
  qed
qed

lemma f32_round_dyadic:
  assumes "\<bar>x\<bar> \<le> 2 ^ 24" and "j \<le> 149"
  shows "f32_round (of_int x / 2 ^ j) = of_int x / 2 ^ j"
proof (rule f32_round_exact_scaled)
  show "nat \<bar>x\<bar> \<le> 2 ^ 24" using assms(1) by simp
next
  have "j + (149 - j) = 149" using assms(2) by simp
  then have e: "f32_scale = 2 ^ j * 2 ^ (149 - j)"
    by (simp only: f32_scale_def power_add [symmetric])
  have "\<bar>real_of_int x / 2 ^ j\<bar> * f32_scale = \<bar>real_of_int x\<bar> * 2 ^ (149 - j)"
    by (simp add: e)
  also have "\<dots> = real (nat \<bar>x\<bar> * 2 ^ (149 - j))"
    by simp
  finally show "\<bar>real_of_int x / 2 ^ j\<bar> * f32_scale = real (nat \<bar>x\<bar> * 2 ^ (149 - j))" .
qed

lemma f32_round_abs_le:
  assumes "\<bar>r\<bar> \<le> 2 ^ a"
  shows "\<bar>f32_round r\<bar> \<le> 2 ^ a"
proof -
  define q where "q = \<bar>r\<bar> * f32_scale"
  define k where "k = excess_bits (nat \<lfloor>q\<rfloor>)"
  have q0: "0 \<le> q" using f32_scale_pos by (simp add: q_def)
  have "q \<le> 2 ^ a * f32_scale"
    unfolding q_def using assms f32_scale_pos by (simp add: mult_right_mono)
  then have qle: "q \<le> 2 ^ (a + 149)"
    by (simp add: f32_scale_def power_add)
  then have "\<lfloor>q\<rfloor> \<le> 2 ^ (a + 149)"
    by (metis floor_mono floor_of_int of_int_numeral of_int_power)
  then have "nat \<lfloor>q\<rfloor> \<le> 2 ^ (a + 149)"
    by (simp add: nat_le_iff)
  then have "nat \<lfloor>q\<rfloor> div 2 ^ (a + 149) \<le> 1"
    by (metis div_le_mono div_self power_not_zero zero_neq_numeral)
  then have "nat \<lfloor>q\<rfloor> div 2 ^ (a + 149) < 2 ^ 24"
    by simp
  then have kle: "k \<le> a + 149"
    unfolding k_def by (rule excess_bits_le)
  then obtain d where d: "a + 149 = k + d"
    using le_Suc_ex by blast
  have "q / 2 ^ k \<le> 2 ^ d"
    using qle by (simp add: d power_add field_simps)
  then have "q / 2 ^ k \<le> of_int (2 ^ d)" by simp
  then have "rne (q / 2 ^ k) \<le> 2 ^ d" by (rule rne_le)
  then have "rne (q / 2 ^ k) * 2 ^ k \<le> 2 ^ d * 2 ^ k"
    by (simp add: mult_right_mono)
  then have up': "real_of_int (rne (q / 2 ^ k) * 2 ^ k) \<le> 2 ^ (a + 149)"
    by (metis d mult.commute of_int_le_iff of_int_numeral of_int_power power_add)
  have "0 \<le> q / 2 ^ k" using q0 by simp
  then have "0 \<le> rne (q / 2 ^ k)" by (rule rne_nonneg)
  then have lo': "0 \<le> real_of_int (rne (q / 2 ^ k) * 2 ^ k)"
    by simp
  define v where "v = real_of_int (rne (q / 2 ^ k) * 2 ^ k)"
  have lo: "0 \<le> v" and up: "v \<le> 2 ^ (a + 149)"
    using lo' up' by (simp_all only: v_def)
  have fr: "f32_round r = sgn r * v / f32_scale"
    unfolding f32_round_def Let_def q_def [symmetric] k_def [symmetric] v_def ..
  have "\<bar>f32_round r\<bar> = \<bar>sgn r\<bar> * (v / f32_scale)"
    using lo f32_scale_pos by (simp add: fr abs_mult)
  also have "\<dots> \<le> 1 * (v / f32_scale)"
    using lo f32_scale_pos by (intro mult_right_mono) (simp_all add: abs_sgn_eq)
  also have "\<dots> \<le> 2 ^ (a + 149) / f32_scale"
    using up f32_scale_pos by (simp add: divide_right_mono)
  also have "\<dots> = 2 ^ a" by (simp add: power_add f32_scale_def)
  finally show ?thesis .
qed

lemma excess_bits_eqI:
  assumes "n div 2 ^ k < 2 ^ 24" and "k = 0 \<or> 2 ^ 24 \<le> n div 2 ^ (k - 1)"
  shows "excess_bits n = k"
proof (rule antisym)
  show "excess_bits n \<le> k" by (rule excess_bits_le) (rule assms(1))
next
  show "k \<le> excess_bits n"
  proof (rule ccontr)
    assume "\<not> k \<le> excess_bits n"
    then have lt: "excess_bits n \<le> k - 1" and k: "k \<noteq> 0" by simp_all
    then obtain d where d: "k - 1 = excess_bits n + d"
      using le_Suc_ex by blast
    have "n div 2 ^ (k - 1) = (n div 2 ^ excess_bits n) div 2 ^ d"
      unfolding d by (simp add: power_add div_mult2_eq)
    also have "\<dots> \<le> n div 2 ^ excess_bits n" by (rule div_le_dividend)
    also have "\<dots> < 2 ^ 24" by (rule excess_bits_div)
    finally show False using assms(2) k by simp
  qed
qed

lemma f32_round_with:
  assumes "excess_bits (nat \<lfloor>\<bar>r\<bar> * f32_scale\<rfloor>) = k"
  shows "f32_round r = sgn r * of_int (rne (\<bar>r\<bar> * f32_scale / 2 ^ k) * 2 ^ k) / f32_scale"
  using assms by (simp add: f32_round_def Let_def)

lemma f32_of_int_max32: "f32_of_int 2147483647 = 2147483648"
proof -
  have "excess_bits (nat \<lfloor>\<bar>2147483647::real\<bar> * f32_scale\<rfloor>) = 156"
    by (rule excess_bits_eqI) (simp_all add: f32_scale_def)
  then have "f32_round 2147483647 = sgn 2147483647 * of_int (rne (\<bar>2147483647\<bar> * f32_scale / 2 ^ 156) * 2 ^ 156) / f32_scale"
    by (rule f32_round_with)
  also have "\<dots> = 2147483648"
    by (simp add: f32_scale_def rne_def Let_def)
  finally show ?thesis by (simp add: f32_of_int_def)
qed

lemma f32_of_int_exact: "\<bar>x\<bar> \<le> 2 ^ 24 \<Longrightarrow> f32_of_int x = of_int x"
  using f32_round_dyadic [of x 0] by (simp add: f32_of_int_def)

lemma sint16_abs: "\<bar>sint (w :: 16 word)\<bar> \<le> 2 ^ 15"
  using sint_range_size [of w] by (simp add: word_size abs_le_iff)

lemma sint32_abs: "\<bar>sint (w :: 32 word)\<bar> \<le> 2 ^ 31"
  using sint_range_size [of w] by (simp add: word_size abs_le_iff)

lemma sample16_exact: "sample16 w = real_of_int (sint w) / 32768"
proof -
  have a: "\<bar>sint w\<bar> \<le> 2 ^ 24" using sint16_abs [of w] by simp
  have "f32_round (real_of_int (sint w) / 2 ^ 15) = real_of_int (sint w) / 2 ^ 15"
    using a by (rule f32_round_dyadic) simp
  then show ?thesis
    by (simp add: sample16_def f32_div_def f32_of_int_exact [OF a])
qed

lemma sample16_abs: "\<bar>sample16 w\<bar> \<le> 1"
proof -
  have "real_of_int \<bar>sint w\<bar> \<le> real_of_int (2 ^ 15)"
    using sint16_abs [of w] by (simp only: of_int_le_iff)
  then have "\<bar>real_of_int (sint w)\<bar> \<le> 32768" by simp
  then show ?thesis by (simp add: sample16_exact)
qed

lemma sample32_abs: "\<bar>sample32 w\<bar> \<le> 1"
proof -
  have "real_of_int \<bar>sint w\<bar> \<le> real_of_int (2 ^ 31)"
    using sint32_abs [of w] by (simp only: of_int_le_iff)
  then have "\<bar>real_of_int (sint w)\<bar> \<le> 2 ^ 31" by simp
  then have "\<bar>f32_of_int (sint w)\<bar> \<le> 2 ^ 31"
    unfolding f32_of_int_def by (rule f32_round_abs_le)
  then have "\<bar>f32_of_int (sint w) / 2147483648\<bar> \<le> 2 ^ 0"
    by simp
  then have "\<bar>f32_round (f32_of_int (sint w) / 2147483648)\<bar> \<le> 2 ^ 0"
    by (rule f32_round_abs_le)
  then show ?thesis by (simp add: sample32_def f32_div_def)
qed

lemma float_mean_abs:
  assumes "\<bar>a\<bar> \<le> 1" and "\<bar>b\<bar> \<le> 1"
  shows "\<bar>float_mean a b\<bar> \<le> 1"
proof -
  have "\<bar>a + b\<bar> \<le> 2 ^ 1" using assms by simp
  then have "\<bar>f32_round (a + b)\<bar> \<le> 2 ^ 1" by (rule f32_round_abs_le)
  then have "\<bar>f32_round (a + b) / 2\<bar> \<le> 2 ^ 0" by simp
  then have "\<bar>f32_round (f32_round (a + b) / 2)\<bar> \<le> 2 ^ 0" by (rule f32_round_abs_le)
  then show ?thesis by (simp add: float_mean_def f32_div_def f32_add_def)
qed

lemma float_mean_sample16:
  "float_mean (sample16 v) (sample16 w) = (sample16 v + sample16 w) / 2"
proof -
  let ?s = "sint v + sint w"
  have "\<bar>?s\<bar> \<le> 2 ^ 15 + 2 ^ 15"
    using sint16_abs [of v] sint16_abs [of w] by linarith
  then have a: "\<bar>?s\<bar> \<le> 2 ^ 24" by simp
  have sum: "sample16 v + sample16 w = real_of_int ?s / 2 ^ 15"
    by (simp add: sample16_exact add_divide_distrib)
  have "f32_round (real_of_int ?s / 2 ^ 15) = real_of_int ?s / 2 ^ 15"
    using a by (rule f32_round_dyadic) simp
  then have add: "f32_add (sample16 v) (sample16 w) = real_of_int ?s / 2 ^ 15"
    by (simp only: f32_add_def sum)
  have "f32_round (real_of_int ?s / 2 ^ 16) = real_of_int ?s / 2 ^ 16"
    using a by (rule f32_round_dyadic) simp
  then have "f32_div (real_of_int ?s / 2 ^ 15) 2 = real_of_int ?s / 2 ^ 16"
    by (simp add: f32_div_def)
  then show ?thesis
    by (simp add: float_mean_def add sum)
qed

lemma f32_round_scaled_down:
  assumes "r \<noteq> 0 \<Longrightarrow> 2 ^ (23 + j) \<le> \<bar>r\<bar> * f32_scale"
  shows "f32_round (f32_round r / 2 ^ j) = f32_round r / 2 ^ j"
proof (cases "r = 0")
  case True
  then show ?thesis by (simp add: f32_round_0)
next
  case False
  define q where "q = \<bar>r\<bar> * f32_scale"
  define n where "n = nat \<lfloor>q\<rfloor>"
  define k where "k = excess_bits n"
  define Z where "Z = rne (q / 2 ^ k)"
  have q0: "0 \<le> q" using f32_scale_pos by (simp add: q_def)
  have big: "2 ^ (23 + j) \<le> q" using assms False by (simp add: q_def)
  have "(2::int) ^ (23 + j) \<le> \<lfloor>q\<rfloor>"
    using big by (simp add: le_floor_iff)
  then have "int (2 ^ (23 + j)) \<le> \<lfloor>q\<rfloor>" by simp
  then have nbig: "2 ^ (23 + j) \<le> n"
    unfolding n_def using q0 by (simp only: le_nat_iff zero_le_floor)
  have jk: "j \<le> k"
  proof (cases j)
    case 0
    then show ?thesis by simp
  next
    case (Suc i)
    with nbig have "2 ^ (24 + i) \<le> n" by simp
    then have "i < k" unfolding k_def by (rule excess_bits_gt)
    with Suc show ?thesis by simp
  qed
  have "n div 2 ^ k < 2 ^ 24" unfolding k_def by (rule excess_bits_div)
  then have "n < 2 ^ 24 * 2 ^ k" by (simp add: div_less_iff_less_mult)
  then have "int n < int (2 ^ 24 * 2 ^ k)" by (simp only: of_nat_less_iff)
  then have "int n + 1 \<le> 2 ^ 24 * 2 ^ k" by simp
  moreover have "int n = \<lfloor>q\<rfloor>" using q0 by (simp add: n_def)
  ultimately have "\<lfloor>q\<rfloor> + 1 \<le> 2 ^ 24 * 2 ^ k" by simp
  then have "real_of_int (\<lfloor>q\<rfloor> + 1) \<le> real_of_int (2 ^ 24 * 2 ^ k)"
    by (simp only: of_int_le_iff)
  then have b: "real_of_int \<lfloor>q\<rfloor> + 1 \<le> 2 ^ 24 * 2 ^ k" by simp
  have a: "q \<le> real_of_int \<lfloor>q\<rfloor> + 1" by linarith
  from a b have "q \<le> 2 ^ 24 * 2 ^ k" by (rule order_trans)
  then have "q / 2 ^ k \<le> real_of_int (2 ^ 24)" by (simp add: field_simps)
  then have Zle: "Z \<le> 2 ^ 24" unfolding Z_def by (rule rne_le)
  have "0 \<le> q / 2 ^ k" using q0 by simp
  then have Z0: "0 \<le> Z" unfolding Z_def by (rule rne_nonneg)
  have R: "f32_round r = sgn r * real_of_int (Z * 2 ^ k) / f32_scale"
    unfolding f32_round_def Let_def q_def [symmetric] n_def [symmetric] k_def [symmetric]
      Z_def [symmetric] ..
  have kj: "(2::real) ^ k = 2 ^ (k - j) * 2 ^ j"
    using jk by (simp add: power_add [symmetric])
  have "\<bar>f32_round r / 2 ^ j\<bar> * f32_scale = real_of_int Z * 2 ^ k / 2 ^ j"
    using False Z0 f32_scale_pos by (simp add: R abs_mult abs_sgn_eq)
  also have "\<dots> = real_of_int Z * 2 ^ (k - j)"
    by (simp add: kj)
  also have "\<dots> = real (nat Z * 2 ^ (k - j))"
    using Z0 by simp
  finally have "\<bar>f32_round r / 2 ^ j\<bar> * f32_scale = real (nat Z * 2 ^ (k - j))" .
  moreover have "nat Z \<le> 2 ^ 24" using Zle by simp
  ultimately show ?thesis by (rule f32_round_exact_scaled)
qed

lemma sample32_exact: "sample32 w = f32_of_int (sint w) / 2147483648"
proof -
  have "f32_round (f32_round (real_of_int (sint w)) / 2 ^ 31)
          = f32_round (real_of_int (sint w)) / 2 ^ 31"
  proof (rule f32_round_scaled_down)
    assume nz: "real_of_int (sint w) \<noteq> 0"
    have "sint w \<noteq> 0"
    proof
      assume "sint w = 0"
      then have "real_of_int (sint w) = 0" by (simp only: of_int_0)
      with nz show False ..
    qed
    then have "1 \<le> \<bar>sint w\<bar>" by linarith
    then have "real_of_int 1 \<le> real_of_int \<bar>sint w\<bar>" by (simp only: of_int_le_iff)
    then have "1 \<le> \<bar>real_of_int (sint w)\<bar>" by simp
    then have "1 * f32_scale \<le> \<bar>real_of_int (sint w)\<bar> * f32_scale"
      using f32_scale_pos by (intro mult_right_mono) simp_all
    moreover have "(2::real) ^ (23 + 31) \<le> 1 * f32_scale"
      by (simp add: f32_scale_def)
    ultimately show "2 ^ (23 + 31) \<le> \<bar>real_of_int (sint w)\<bar> * f32_scale"
      by linarith
  qed
  then show ?thesis by (simp add: sample32_def f32_div_def f32_of_int_def)
qed

lemma f32_of_int_min32: "f32_of_int (- 2147483648) = - 2147483648"
proof -
  have "f32_round (real_of_int (- 2147483648)) = real_of_int (- 2147483648)"
  proof (rule f32_round_exact_scaled)
    show "\<bar>real_of_int (- 2147483648)\<bar> * f32_scale = real (1 * 2 ^ 180)"
      by (simp add: f32_scale_def)
    show "(1::nat) \<le> 2 ^ 24" by simp
  qed
  then show ?thesis by (simp only: f32_of_int_def)
qed

lemma sample32_extremes:
  "sample32 2147483647 = 1" "sample32 2147483648 = - 1" "sample32 (- 2147483648) = - 1"
proof -
  have "sint (2147483647 :: 32 word) = 2147483647" by simp
  then show "sample32 2147483647 = 1"
    by (simp add: sample32_exact f32_of_int_max32)
  have "sint (2147483648 :: 32 word) = - 2147483648" by simp
  then show m: "sample32 2147483648 = - 1"
    by (simp add: sample32_exact f32_of_int_min32)
  have e: "(- 2147483648 :: 32 word) = 2147483648" by simp
  show "sample32 (- 2147483648) = - 1" unfolding e by (rule m)
qed

lemma sample16_extremes:
  "sample16 32767 = 32767 / 32768" "sample16 (- 32768) = - 1"
  by (simp_all add: sample16_exact)

lemma rne_error: "\<bar>real_of_int (rne y) - y\<bar> \<le> 1 / 2"
proof -
  have "0 \<le> y - of_int \<lfloor>y\<rfloor>" and "y - of_int \<lfloor>y\<rfloor> < 1" by linarith+
  then show ?thesis by (auto simp: rne_def Let_def)
qed

lemma f32_round_error:
  assumes "excess_bits (nat \<lfloor>\<bar>r\<bar> * f32_scale\<rfloor>) \<le> k"
  shows "\<bar>f32_round r - r\<bar> \<le> 2 ^ k / (2 * f32_scale)"
proof -
  define q where "q = \<bar>r\<bar> * f32_scale"
  define j where "j = excess_bits (nat \<lfloor>q\<rfloor>)"
  define Z where "Z = rne (q / 2 ^ j)"
  have jk: "j \<le> k" using assms by (simp add: j_def q_def)
  have R: "f32_round r = sgn r * real_of_int (Z * 2 ^ j) / f32_scale"
    unfolding f32_round_def Let_def q_def [symmetric] j_def [symmetric] Z_def [symmetric] ..
  have r: "r = sgn r * q / f32_scale"
    using f32_scale_pos by (simp add: q_def sgn_mult_abs)
  have "f32_round r - r = sgn r * (real_of_int (Z * 2 ^ j) - q) / f32_scale"
    by (subst (2) r) (simp add: R algebra_simps diff_divide_distrib)
  then have "\<bar>f32_round r - r\<bar> = \<bar>sgn r\<bar> * \<bar>real_of_int (Z * 2 ^ j) - q\<bar> / f32_scale"
    using f32_scale_pos by (simp add: abs_mult)
  also have "\<dots> \<le> 1 * \<bar>real_of_int (Z * 2 ^ j) - q\<bar> / f32_scale"
    using f32_scale_pos
    by (intro divide_right_mono mult_right_mono) (simp_all add: abs_sgn_eq)
  also have "\<bar>real_of_int (Z * 2 ^ j) - q\<bar> = \<bar>real_of_int Z - q / 2 ^ j\<bar> * 2 ^ j"
  proof -
    have "real_of_int (Z * 2 ^ j) - q = (real_of_int Z - q / 2 ^ j) * 2 ^ j"
      by (simp add: algebra_simps)
    then show ?thesis by (simp only: abs_mult) simp
  qed
  also have "1 * (\<bar>real_of_int Z - q / 2 ^ j\<bar> * 2 ^ j) / f32_scale
      \<le> 1 * (1 / 2 * 2 ^ j) / f32_scale"
    using f32_scale_pos rne_error [of "q / 2 ^ j"]
    by (intro divide_right_mono mult_left_mono mult_right_mono) (simp_all add: Z_def)
  also have "\<dots> \<le> 1 * (1 / 2 * 2 ^ k) / f32_scale"
    using f32_scale_pos jk
    by (intro divide_right_mono mult_left_mono) simp_all
  finally show ?thesis by simp
qed

lemma f32_round_error_2:
  assumes "\<bar>r\<bar> \<le> 2"
  shows "\<bar>f32_round r - r\<bar> \<le> 1 / 2 ^ 24"
proof (cases "\<bar>r\<bar> = 2")
  case True
  then have "r = real_of_int 2 / 2 ^ 0 \<or> r = real_of_int (- 2) / 2 ^ 0" by auto
  then have "f32_round r = r"
    using f32_round_dyadic [of 2 0] f32_round_dyadic [of "- 2" 0] by auto
  then show ?thesis by simp
next
  case False
  with assms have lt: "\<bar>r\<bar> < 2" by simp
  define q where "q = \<bar>r\<bar> * f32_scale"
  have q0: "0 \<le> q" using f32_scale_pos by (simp add: q_def)
  have "q < 2 * f32_scale"
    unfolding q_def using lt f32_scale_pos by (simp add: mult_strict_right_mono)
  then have "q < real_of_int (2 ^ 150)" by (simp add: f32_scale_def)
  then have "\<lfloor>q\<rfloor> < 2 ^ 150" by (simp only: floor_less_iff)
  then have "nat \<lfloor>q\<rfloor> < 2 ^ 24 * 2 ^ 126" using q0 by (simp add: nat_less_iff)
  then have "nat \<lfloor>q\<rfloor> div 2 ^ 126 < 2 ^ 24"
    by (simp only: div_less_iff_less_mult zero_less_power zero_less_numeral)
  then have "excess_bits (nat \<lfloor>q\<rfloor>) \<le> 126" by (rule excess_bits_le)
  then have "\<bar>f32_round r - r\<bar> \<le> 2 ^ 126 / (2 * f32_scale)"
    unfolding q_def by (rule f32_round_error)
  also have "\<dots> = 1 / 2 ^ 24" by (simp add: f32_scale_def)
  finally show ?thesis .
qed

lemma f32_of_int_integer: "\<exists>z'. f32_of_int z = real_of_int z'"
proof -
  define n where "n = nat \<bar>z\<bar> * 2 ^ 149"
  define k where "k = excess_bits n"
  have q: "\<bar>real_of_int z\<bar> * f32_scale = real n"
    by (simp add: n_def f32_scale_def)
  show ?thesis
  proof (cases "k \<le> 149")
    case True
    then have "(2::nat) ^ k dvd 2 ^ 149" by (rule le_imp_power_dvd)
    then have "2 ^ excess_bits n dvd n" by (simp add: n_def k_def)
    with q have "f32_round (real_of_int z) = real_of_int z" by (rule f32_round_exact)
    then show ?thesis unfolding f32_of_int_def by blast
  next
    case False
    then obtain d where d: "k = 149 + d" using le_Suc_ex [of 149 k] by auto
    have "excess_bits (nat \<lfloor>\<bar>real_of_int z\<bar> * f32_scale\<rfloor>) = k"
      by (simp only: q k_def floor_of_nat nat_int)
    then have "f32_round (real_of_int z) =
        sgn (real_of_int z) * of_int (rne (\<bar>real_of_int z\<bar> * f32_scale / 2 ^ k) * 2 ^ k) / f32_scale"
      by (rule f32_round_with)
    also have "\<dots> = real_of_int (sgn z * (rne (\<bar>real_of_int z\<bar> * f32_scale / 2 ^ k) * 2 ^ d))"
      by (simp add: d power_add f32_scale_def sgn_if)
    finally show ?thesis unfolding f32_of_int_def by blast
  qed
qed

lemma sample32_grid: "\<exists>z. sample32 w = real_of_int z / 2 ^ 31"
  using f32_of_int_integer [of "sint w"] by (auto simp: sample32_exact)

lemma sample16_grid: "\<exists>z. sample16 w = real_of_int z / 2 ^ 31"
proof
  show "sample16 w = real_of_int (sint w * 2 ^ 16) / 2 ^ 31"
    by (simp add: sample16_exact)
qed

lemma float_mean_halved:
  assumes "a = real_of_int x / 2 ^ 31" and "b = real_of_int y / 2 ^ 31"
  shows "float_mean a b = f32_round (a + b) / 2"
proof -
  have s: "a + b = real_of_int (x + y) / 2 ^ 31"
    by (simp add: assms add_divide_distrib)
  have "f32_round (f32_round (a + b) / 2 ^ 1) = f32_round (a + b) / 2 ^ 1"
  proof (rule f32_round_scaled_down)
    assume "a + b \<noteq> 0"
    then have "x + y \<noteq> 0" by (simp add: s)
    then have "1 \<le> \<bar>x + y\<bar>" by linarith
    then have "real_of_int 1 \<le> real_of_int \<bar>x + y\<bar>" by (simp only: of_int_le_iff)
    then have "1 \<le> \<bar>real_of_int (x + y)\<bar>" by simp
    then have "1 / 2 ^ 31 \<le> \<bar>a + b\<bar>" by (simp add: s divide_right_mono)
    then have "1 / 2 ^ 31 * f32_scale \<le> \<bar>a + b\<bar> * f32_scale"
      using f32_scale_pos by (intro mult_right_mono) simp_all
    moreover have "(2::real) ^ (23 + 1) \<le> 1 / 2 ^ 31 * f32_scale"
      by (simp add: f32_scale_def)
    ultimately show "2 ^ (23 + 1) \<le> \<bar>a + b\<bar> * f32_scale" by linarith
  qed
  then show ?thesis by (simp add: float_mean_def f32_div_def f32_add_def)
qed

lemma float_mean_error:
  assumes "a = real_of_int x / 2 ^ 31" and "b = real_of_int y / 2 ^ 31"
    and "\<bar>a\<bar> \<le> 1" and "\<bar>b\<bar> \<le> 1"
  shows "\<bar>float_mean a b - (a + b) / 2\<bar> \<le> 1 / 2 ^ 25"
proof -
  have "\<bar>a + b\<bar> \<le> 2" using assms(3,4) by simp
  then have "\<bar>f32_round (a + b) - (a + b)\<bar> \<le> 1 / 2 ^ 24" by (rule f32_round_error_2)
  moreover have "float_mean a b - (a + b) / 2 = (f32_round (a + b) - (a + b)) / 2"
    by (simp add: float_mean_halved [OF assms(1,2)] diff_divide_distrib)
  then have "\<bar>float_mean a b - (a + b) / 2\<bar> = \<bar>f32_round (a + b) - (a + b)\<bar> / 2"
    by (simp only: abs_divide abs_numeral)
  ultimately show ?thesis by simp
qed

lemma float_mean_stereo32: "float_mean 1 (1 / 16777216) = 1 / 2"
proof -
  have "excess_bits (nat \<lfloor>\<bar>16777217 / 16777216 :: real\<bar> * f32_scale\<rfloor>) = 126"
    by (rule excess_bits_eqI) (simp_all add: f32_scale_def)
  then have "f32_round (16777217 / 16777216) =
      sgn (16777217 / 16777216) *
        of_int (rne (\<bar>16777217 / 16777216\<bar> * f32_scale / 2 ^ 126) * 2 ^ 126) / f32_scale"
    by (rule f32_round_with)
  also have "\<dots> = 1"
    by (simp add: f32_scale_def rne_def Let_def)
  finally have s: "f32_round (16777217 / 16777216) = 1" .
  have "float_mean (real_of_int (2 ^ 31) / 2 ^ 31) (real_of_int 128 / 2 ^ 31)
      = f32_round (real_of_int (2 ^ 31) / 2 ^ 31 + real_of_int 128 / 2 ^ 31) / 2"
    by (rule float_mean_halved) (rule refl)+
  then show ?thesis by (simp add: s)
qed

section \<open>Little-endian fields and the signed sample rate\<close>

text \<open>
  A field of \<open>k\<close> bytes is below \<open>256 ^ k\<close>; the conversion from \<open>uint32_t\<close> to \<open>int\<close>
  of line 59 keeps values below \<open>2\<^sup>3\<^sup>1\<close> and subtracts \<open>2\<^sup>3\<^sup>2\<close> from the others.
\<close>

lemma tags_of_bytes:
  assumes "44 \<le> length bytes"
  shows "riff (header_of bytes) = take 4 bytes"
    and "wave (header_of bytes) = take 4 (drop 8 bytes)"
  by (simp_all add: header_of_def read_header_def field_def drop_take)

lemma le_nat_bound: "le_nat bs < 256 ^ length bs"
proof (induction bs)
  case Nil
  then show ?case by simp
next
  case (Cons b bs)
  have "unat b < 2 ^ LENGTH(8)" by (rule unsigned_less)
  then have "unat b < 256" by simp
  moreover have "le_nat bs + 1 \<le> 256 ^ length bs" using Cons by simp
  then have "256 * (le_nat bs + 1) \<le> 256 * 256 ^ length bs"
    by (rule mult_le_mono2)
  ultimately show ?case by simp
qed

lemma sint_of_nat32:
  assumes "n < 2 ^ 32"
  shows "sint (word_of_nat n :: 32 word) = (if n < 2 ^ 31 then int n else int n - 2 ^ 32)"
proof -
  have "(word_of_nat n :: 32 word) = word_of_int (int n)" by simp
  then have "sint (word_of_nat n :: 32 word) = signed_take_bit 31 (int n)"
    by (simp only: sint_sbintrunc') simp
  also have "\<dots> = (int n + 2 ^ 31) mod 2 ^ 32 - 2 ^ 31"
    by (simp add: signed_take_bit_eq_take_bit_shift take_bit_eq_mod)
  finally have e: "sint (word_of_nat n :: 32 word) = (int n + 2 ^ 31) mod 2 ^ 32 - 2 ^ 31" .
  have n32: "int n < 2 ^ 32" using assms by (metis of_nat_less_iff of_nat_numeral of_nat_power)
  show ?thesis
  proof (cases "n < 2 ^ 31")
    case True
    then have "int n < 2 ^ 31" by (metis of_nat_less_iff of_nat_numeral of_nat_power)
    then have "(int n + 2 ^ 31) mod 2 ^ 32 = int n + 2 ^ 31"
      by (intro mod_pos_pos_trivial) simp_all
    with True show ?thesis by (simp add: e)
  next
    case False
    then have "2 ^ 31 \<le> int n" by (metis not_less of_nat_le_iff of_nat_numeral of_nat_power)
    then have "(int n + 2 ^ 31 - 2 ^ 32) mod 2 ^ 32 = int n + 2 ^ 31 - 2 ^ 32"
      using n32 by (intro mod_pos_pos_trivial) simp_all
    moreover have "(int n + 2 ^ 31 - 2 ^ 32) mod 2 ^ 32 = (int n + 2 ^ 31) mod 2 ^ 32"
      by (rule minus_mod_self2)
    ultimately show ?thesis using False by (simp add: e)
  qed
qed

lemma field_rate_nth:
  assumes "44 \<le> length bytes"
  shows "field 24 4 (take 44 bytes) = [bytes ! 24, bytes ! 25, bytes ! 26, bytes ! 27]"
proof -
  have "drop 24 bytes = bytes ! 24 # drop 25 bytes"
    using assms Cons_nth_drop_Suc [of 24 bytes] by simp
  moreover have "drop 25 bytes = bytes ! 25 # drop 26 bytes"
    using assms Cons_nth_drop_Suc [of 25 bytes] by simp
  moreover have "drop 26 bytes = bytes ! 26 # drop 27 bytes"
    using assms Cons_nth_drop_Suc [of 26 bytes] by simp
  moreover have "drop 27 bytes = bytes ! 27 # drop 28 bytes"
    using assms Cons_nth_drop_Suc [of 27 bytes] by simp
  ultimately have "take 4 (drop 24 bytes) = [bytes ! 24, bytes ! 25, bytes ! 26, bytes ! 27]"
    by simp
  then show ?thesis by (simp add: field_def drop_take)
qed

section \<open>The loops as maps\<close>

text \<open>
  A loop that assigns \<open>p[i] = h i\<close> for \<open>i\<close> from 0 to \<open>k - 1\<close> overwrites the first
  \<open>k\<close> elements with \<open>map h [0..<k]\<close>; so the two conversion loops compute
  \<open>map sample16\<close> and \<open>map sample32\<close>, and the loop of lines 100 to 102 computes
  \<open>mono_of\<close>.
\<close>

lemma fold_update_upt:
  "k \<le> length p \<Longrightarrow> fold (\<lambda>i p. p[i := h i]) [0..<k] p = map h [0..<k] @ drop k p"
proof (induction k)
  case 0
  then show ?case by simp
next
  case (Suc k)
  then have k: "k < length p" by simp
  have "fold (\<lambda>i p. p[i := h i]) [0..<Suc k] p = (map h [0..<k] @ drop k p)[k := h k]"
    using Suc by simp
  also have "\<dots> = map h [0..<k] @ (drop k p)[0 := h k]"
    by (simp add: list_update_append)
  also have "drop k p = p ! k # drop (Suc k) p"
    using k by (simp add: Cons_nth_drop_Suc)
  finally show ?case by simp
qed

lemma length_int16_items: "length (int16_items bs) = length bs div 2"
  by (induction bs rule: int16_items.induct) simp_all

lemma length_int32_items: "length (int32_items bs) = length bs div 4"
  by (induction bs rule: int32_items.induct) simp_all

lemma length_resize: "length (resize xs n) = n"
  by (simp add: resize_def)

lemma map_nth_upt: "map (\<lambda>i. f (xs ! i)) [0..<length xs] = map f xs"
  by (rule nth_equalityI) simp_all

lemma convert_int16_map:
  assumes "length samples = n" and "length pcm = n"
  shows "convert_int16 n samples pcm = map sample16 samples"
proof -
  have "convert_int16 n samples pcm = fold (\<lambda>i p. p[i := sample16 (samples ! i)]) [0..<n] pcm"
    by (simp only: convert_int16_def sample16_def)
  also have "\<dots> = map (\<lambda>i. sample16 (samples ! i)) [0..<n] @ drop n pcm"
    by (rule fold_update_upt) (simp add: assms(2))
  also have "\<dots> = map (\<lambda>i. sample16 (samples ! i)) [0..<length samples]"
    by (simp add: assms)
  finally show ?thesis by (simp only: map_nth_upt)
qed

lemma convert_int32_map:
  assumes "length samples = n" and "length pcm = n"
  shows "convert_int32 n samples pcm = map sample32 samples"
proof -
  have "convert_int32 n samples pcm = fold (\<lambda>i p. p[i := sample32 (samples ! i)]) [0..<n] pcm"
    by (simp only: convert_int32_def sample32_def)
  also have "\<dots> = map (\<lambda>i. sample32 (samples ! i)) [0..<n] @ drop n pcm"
    by (rule fold_update_upt) (simp add: assms(2))
  also have "\<dots> = map (\<lambda>i. sample32 (samples ! i)) [0..<length samples]"
    by (simp add: assms)
  finally show ?thesis by (simp only: map_nth_upt)
qed

lemma stereo_to_mono_map:
  assumes "length pcm = n"
  shows "stereo_to_mono n pcm = mono_of pcm"
proof -
  let ?h = "\<lambda>i. float_mean (pcm ! (2 * i)) (pcm ! (2 * i + 1))"
  have "stereo_to_mono n pcm = fold (\<lambda>i mono. mono[i := ?h i]) [0..<n div 2] (replicate (n div 2) 0)"
    by (simp only: stereo_to_mono_def Let_def length_replicate float_mean_def mult.commute [of _ 2])
  also have "\<dots> = map ?h [0..<n div 2] @ drop (n div 2) (replicate (n div 2) 0)"
    by (rule fold_update_upt) simp
  also have "\<dots> = mono_of pcm"
    by (simp add: mono_of_def assms)
  finally show ?thesis .
qed

lemma length_mono_of: "length (mono_of xs) = length xs div 2"
  by (simp add: mono_of_def)

lemma nth_mono_of:
  "i < length xs div 2 \<Longrightarrow> mono_of xs ! i = float_mean (xs ! (2 * i)) (xs ! (2 * i + 1))"
  by (simp add: mono_of_def)

section \<open>The paths of \<open>read_wav\<close>\<close>

text \<open>
  One lemma for each way through the function, then their combination: on a file with a
  full header \<open>read_wav\<close> computes \<open>read_wav_summary\<close> (\<open>read_wav_full\<close>), and
  \<open>read_wav_cases\<close> adds the missing file and the short header.
\<close>

lemma items_div_eq:
  assumes "0 < (s::nat)"
  shows "min l (s * n) div s = n \<longleftrightarrow> n \<le> l div s"
proof
  assume h: "min l (s * n) div s = n"
  have "min l (s * n) div s \<le> l div s"
    by (rule div_le_mono) simp
  with h show "n \<le> l div s" by simp
next
  assume "n \<le> l div s"
  then have "s * n \<le> l"
    using assms by (simp add: less_eq_div_iff_mult_less_eq mult.commute)
  then have "min l (s * n) = s * n" by simp
  then show "min l (s * n) div s = n" using assms by simp
qed

lemma read_wav_no_file:
  "fs filename = None \<Longrightarrow> read_wav fs filename m = (Failure OpenError, m)"
  by (simp add: read_wav_def fopen_def)

lemma read_wav_short_header:
  "fs filename = Some bytes \<Longrightarrow> length bytes < 44 \<Longrightarrow>
   read_wav fs filename m = (Failure TruncatedHeaderError, m)"
  by (simp add: read_wav_def fopen_def fread_def fclose_def Let_def)

lemma read_wav_bad_tags:
  "fs filename = Some bytes \<Longrightarrow> 44 \<le> length bytes \<Longrightarrow>
   riff (header_of bytes) \<noteq> RIFF_tag \<or> wave (header_of bytes) \<noteq> WAVE_tag \<Longrightarrow>
   read_wav fs filename m = (Failure InvalidFormatError, m)"
  by (simp add: read_wav_def fopen_def fread_def fclose_def Let_def header_of_def min_def)

lemma read_wav_div_zero:
  "fs filename = Some bytes \<Longrightarrow> 44 \<le> length bytes \<Longrightarrow>
   riff (header_of bytes) = RIFF_tag \<Longrightarrow> wave (header_of bytes) = WAVE_tag \<Longrightarrow>
   unat (bits_per_sample (header_of bytes)) div 8 = 0 \<Longrightarrow>
   read_wav fs filename m =
     (DivisionByZero, m\<lparr> open_files := open_files m + 1,
                           sample_rate_out := sint (sample_rate (header_of bytes)) \<rparr>)"
  by (simp add: read_wav_def fopen_def fread_def fclose_def Let_def header_of_def min_def)

lemma read_wav_bad_depth:
  "fs filename = Some bytes \<Longrightarrow> 44 \<le> length bytes \<Longrightarrow>
   riff (header_of bytes) = RIFF_tag \<Longrightarrow> wave (header_of bytes) = WAVE_tag \<Longrightarrow>
   unat (bits_per_sample (header_of bytes)) div 8 \<noteq> 0 \<Longrightarrow>
   bits_per_sample (header_of bytes) \<noteq> 16 \<Longrightarrow> bits_per_sample (header_of bytes) \<noteq> 32 \<Longrightarrow>
   read_wav fs filename m =
     (Failure (UnsupportedBitDepthError (unat (bits_per_sample (header_of bytes)))),
      m\<lparr> sample_rate_out := sint (sample_rate (header_of bytes)),
         pcm_data := resize (pcm_data m) (sample_count (header_of bytes)) \<rparr>)"
  by (simp add: read_wav_def fopen_def fread_def fclose_def Let_def header_of_def min_def
      sample_count_def)

lemma fread_header:
  "44 \<le> length bs \<Longrightarrow>
   fread 44 (Suc 0) \<lparr> content = bs, pos = 0 \<rparr> =
     (take 44 bs, Suc 0, \<lparr> content = bs, pos = 44 \<rparr>)"
  by (simp add: fread_def Let_def min_def)

lemma fread_payload:
  "fread s n \<lparr> content = bs, pos = 44 \<rparr> =
     (take (s * n) (drop 44 bs), min (length bs - 44) (s * n) div s,
      \<lparr> content = bs, pos = 44 + min (length bs - 44) (s * n) \<rparr>)"
  by (simp add: fread_def Let_def)

lemma read_wav_truncated:
  assumes "fs filename = Some bytes" and "44 \<le> length bytes"
    and "riff (header_of bytes) = RIFF_tag" and "wave (header_of bytes) = WAVE_tag"
    and "bits_per_sample (header_of bytes) = 16 \<or> bits_per_sample (header_of bytes) = 32"
    and "readable_samples bytes < sample_count (header_of bytes)"
  shows "read_wav fs filename m =
     (Failure TruncatedPayloadError,
      m\<lparr> sample_rate_out := sint (sample_rate (header_of bytes)),
         pcm_data := resize (pcm_data m) (sample_count (header_of bytes)) \<rparr>)"
proof -
  from assms(5) show ?thesis
  proof
    assume b: "bits_per_sample (header_of bytes) = 16"
    with assms(6) have "\<not> sample_count (header_of bytes) \<le> (length bytes - 44) div 2"
      by (simp add: readable_samples_def payload_def)
    with assms(1-4) b show ?thesis
      by (simp add: read_wav_def fopen_def fread_header fread_payload items_div_eq fclose_def
          Let_def header_of_def sample_count_def)
  next
    assume b: "bits_per_sample (header_of bytes) = 32"
    with assms(6) have "\<not> sample_count (header_of bytes) \<le> (length bytes - 44) div 4"
      by (simp add: readable_samples_def payload_def)
    with assms(1-4) b show ?thesis
      by (simp add: read_wav_def fopen_def fread_header fread_payload items_div_eq fclose_def
          Let_def header_of_def sample_count_def)
  qed
qed

lemma read_wav_success:
  assumes "fs filename = Some bytes" and "44 \<le> length bytes"
    and "riff (header_of bytes) = RIFF_tag" and "wave (header_of bytes) = WAVE_tag"
    and "bits_per_sample (header_of bytes) = 16 \<or> bits_per_sample (header_of bytes) = 32"
    and "sample_count (header_of bytes) \<le> readable_samples bytes"
  shows "read_wav fs filename m =
     (Success,
      m\<lparr> sample_rate_out := sint (sample_rate (header_of bytes)),
         pcm_data := decoded bytes \<rparr>)"
proof -
  let ?h = "header_of bytes"
  let ?n = "sample_count ?h"
  from assms(5) show ?thesis
  proof
    assume b: "bits_per_sample ?h = 16"
    with assms(6) have enough: "?n \<le> (length bytes - 44) div 2"
      by (simp add: readable_samples_def payload_def)
    then have "2 * ?n \<le> length bytes - 44"
      by (simp add: less_eq_div_iff_mult_less_eq mult.commute)
    then have len: "length (int16_items (take (2 * ?n) (drop 44 bytes))) = ?n"
      by (simp add: length_int16_items)
    have conv: "convert_int16 ?n (int16_items (take (2 * ?n) (drop 44 bytes)))
                  (resize (pcm_data m) ?n) = normalized bytes"
      using b by (simp add: convert_int16_map [OF len] length_resize normalized_def Let_def
          payload_def)
    have nlen: "length (normalized bytes) = ?n"
      using b len by (simp add: normalized_def Let_def payload_def)
    have "read_wav fs filename m =
            downmix_and_close ?h ?n
              (m\<lparr> open_files := open_files m + 1,
                   sample_rate_out := sint (sample_rate ?h),
                   pcm_data := normalized bytes \<rparr>)"
      using assms(1-4) b enough conv
      by (simp add: read_wav_def fopen_def fread_header fread_payload items_div_eq
          Let_def header_of_def sample_count_def)
    then show ?thesis
      by (simp add: downmix_and_close_def fclose_def decoded_def
          stereo_to_mono_map [OF nlen])
  next
    assume b: "bits_per_sample ?h = 32"
    with assms(6) have enough: "?n \<le> (length bytes - 44) div 4"
      by (simp add: readable_samples_def payload_def)
    then have "4 * ?n \<le> length bytes - 44"
      by (simp add: less_eq_div_iff_mult_less_eq mult.commute)
    then have len: "length (int32_items (take (4 * ?n) (drop 44 bytes))) = ?n"
      by (simp add: length_int32_items)
    have conv: "convert_int32 ?n (int32_items (take (4 * ?n) (drop 44 bytes)))
                  (resize (pcm_data m) ?n) = normalized bytes"
      using b by (simp add: convert_int32_map [OF len] length_resize normalized_def Let_def
          payload_def)
    have nlen: "length (normalized bytes) = ?n"
      using b len by (simp add: normalized_def Let_def payload_def)
    have "read_wav fs filename m =
            downmix_and_close ?h ?n
              (m\<lparr> open_files := open_files m + 1,
                   sample_rate_out := sint (sample_rate ?h),
                   pcm_data := normalized bytes \<rparr>)"
      using assms(1-4) b enough conv
      by (simp add: read_wav_def fopen_def fread_header fread_payload items_div_eq
          Let_def header_of_def sample_count_def)
    then show ?thesis
      by (simp add: downmix_and_close_def fclose_def decoded_def
          stereo_to_mono_map [OF nlen])
  qed
qed

lemma read_wav_full:
  assumes "fs filename = Some bytes" and "44 \<le> length bytes"
  shows "read_wav fs filename m = read_wav_summary bytes m"
proof -
  let ?h = "header_of bytes"
  consider (tags) "riff ?h \<noteq> RIFF_tag \<or> wave ?h \<noteq> WAVE_tag"
    | (zero) "riff ?h = RIFF_tag" "wave ?h = WAVE_tag" "unat (bits_per_sample ?h) div 8 = 0"
    | (depth) "riff ?h = RIFF_tag" "wave ?h = WAVE_tag" "unat (bits_per_sample ?h) div 8 \<noteq> 0"
        "bits_per_sample ?h \<noteq> 16" "bits_per_sample ?h \<noteq> 32"
    | (trunc) "riff ?h = RIFF_tag" "wave ?h = WAVE_tag"
        "bits_per_sample ?h = 16 \<or> bits_per_sample ?h = 32"
        "readable_samples bytes < sample_count ?h"
    | (ok) "riff ?h = RIFF_tag" "wave ?h = WAVE_tag"
        "bits_per_sample ?h = 16 \<or> bits_per_sample ?h = 32"
        "sample_count ?h \<le> readable_samples bytes"
    by fastforce
  then show ?thesis
  proof cases
    case tags
    then show ?thesis
      using read_wav_bad_tags [where fs = fs and filename = filename and m = m, OF assms tags] by (auto simp: read_wav_summary_def Let_def)
  next
    case zero
    then show ?thesis
      using read_wav_div_zero [where fs = fs and filename = filename and m = m, OF assms zero] by (simp add: read_wav_summary_def Let_def)
  next
    case depth
    then show ?thesis
      using read_wav_bad_depth [where fs = fs and filename = filename and m = m, OF assms depth] by (simp add: read_wav_summary_def Let_def)
  next
    case trunc
    have "unat (bits_per_sample ?h) div 8 \<noteq> 0" using trunc(3) by auto
    then show ?thesis
      using read_wav_truncated [where fs = fs and filename = filename and m = m, OF assms trunc] trunc
      by (auto simp: read_wav_summary_def Let_def)
  next
    case ok
    have "unat (bits_per_sample ?h) div 8 \<noteq> 0" using ok(3) by auto
    then show ?thesis
      using read_wav_success [where fs = fs and filename = filename and m = m, OF assms ok] ok
      by (auto simp: read_wav_summary_def Let_def)
  qed
qed

lemma read_wav_summary_cong:
  assumes "drop 44 b1 = drop 44 b2"
    and "riff (header_of b1) = riff (header_of b2)"
    and "wave (header_of b1) = wave (header_of b2)"
    and "num_channels (header_of b1) = num_channels (header_of b2)"
    and "sample_rate (header_of b1) = sample_rate (header_of b2)"
    and "bits_per_sample (header_of b1) = bits_per_sample (header_of b2)"
    and "data_size (header_of b1) = data_size (header_of b2)"
  shows "read_wav_summary b1 m = read_wav_summary b2 m"
proof -
  have c: "sample_count (header_of b1) = sample_count (header_of b2)"
    by (simp add: sample_count_def assms)
  have p: "payload b1 = payload b2" by (simp add: payload_def assms)
  have r: "readable_samples b1 = readable_samples b2"
    by (simp add: readable_samples_def p assms)
  have n: "normalized b1 = normalized b2"
    by (simp add: normalized_def Let_def c p assms)
  have d: "decoded b1 = decoded b2"
    by (simp add: decoded_def n assms)
  show ?thesis
    by (simp add: read_wav_summary_def Let_def c r d assms)
qed

lemma decoded_empty:
  assumes "data_size (header_of bytes) = 0"
  shows "sample_count (header_of bytes) = 0" and "decoded bytes = []"
proof -
  show c: "sample_count (header_of bytes) = 0"
    by (simp add: sample_count_def assms)
  then have "normalized bytes = []"
    by (simp add: normalized_def Let_def)
  then show "decoded bytes = []"
    by (simp add: decoded_def mono_of_def)
qed

lemma read_wav_cases:
  "read_wav fs filename m =
     (case fs filename of
        None \<Rightarrow> (Failure OpenError, m)
      | Some bytes \<Rightarrow>
          if length bytes < 44 then (Failure TruncatedHeaderError, m)
          else read_wav_summary bytes m)"
proof (cases "fs filename")
  case None
  then show ?thesis by (simp add: read_wav_no_file)
next
  case (Some bytes)
  show ?thesis
  proof (cases "length bytes < 44")
    case True
    with Some show ?thesis by (simp add: read_wav_short_header)
  next
    case False
    then have "44 \<le> length bytes" by simp
    with Some have "read_wav fs filename m = read_wav_summary bytes m"
      by (rule read_wav_full)
    with Some False show ?thesis by simp
  qed
qed

lemma length_normalized:
  assumes "bits_per_sample (header_of bytes) = 16 \<or> bits_per_sample (header_of bytes) = 32"
    and "sample_count (header_of bytes) \<le> readable_samples bytes"
  shows "length (normalized bytes) = sample_count (header_of bytes)"
proof -
  let ?n = "sample_count (header_of bytes)"
  from assms(1) show ?thesis
  proof
    assume b: "bits_per_sample (header_of bytes) = 16"
    with assms(2) have "?n \<le> length (payload bytes) div 2"
      by (simp add: readable_samples_def)
    then have "2 * ?n \<le> length (payload bytes)"
      by (simp add: less_eq_div_iff_mult_less_eq mult.commute)
    then show ?thesis
      by (simp add: normalized_def Let_def b length_int16_items)
  next
    assume b: "bits_per_sample (header_of bytes) = 32"
    with assms(2) have "?n \<le> length (payload bytes) div 4"
      by (simp add: readable_samples_def)
    then have "4 * ?n \<le> length (payload bytes)"
      by (simp add: less_eq_div_iff_mult_less_eq mult.commute)
    then show ?thesis
      by (simp add: normalized_def Let_def b length_int32_items)
  qed
qed

lemma length_decoded:
  assumes "bits_per_sample (header_of bytes) = 16 \<or> bits_per_sample (header_of bytes) = 32"
    and "sample_count (header_of bytes) \<le> readable_samples bytes"
  shows "length (decoded bytes) =
           (if num_channels (header_of bytes) = 2 then sample_count (header_of bytes) div 2
            else sample_count (header_of bytes))"
  by (simp add: decoded_def length_mono_of length_normalized [OF assms])

lemma read_wav_SuccessD:
  assumes "fs filename = Some bytes" and "read_wav fs filename m = (Success, m')"
  shows "44 \<le> length bytes"
    and "riff (header_of bytes) = RIFF_tag" and "wave (header_of bytes) = WAVE_tag"
    and "bits_per_sample (header_of bytes) = 16 \<or> bits_per_sample (header_of bytes) = 32"
    and "sample_count (header_of bytes) \<le> readable_samples bytes"
    and "m' = m\<lparr> sample_rate_out := sint (sample_rate (header_of bytes)),
                  pcm_data := decoded bytes \<rparr>"
proof -
  have r: "(if length bytes < 44 then (Failure TruncatedHeaderError, m)
            else read_wav_summary bytes m) = (Success, m')"
    using assms by (simp add: read_wav_cases)
  then show l: "44 \<le> length bytes"
    by (simp split: if_splits)
  with r have s: "read_wav_summary bytes m = (Success, m')" by simp
  from s show "riff (header_of bytes) = RIFF_tag"
    by (simp add: read_wav_summary_def Let_def split: if_splits)
  from s show "wave (header_of bytes) = WAVE_tag"
    by (simp add: read_wav_summary_def Let_def split: if_splits)
  from s show "bits_per_sample (header_of bytes) = 16 \<or> bits_per_sample (header_of bytes) = 32"
    by (simp add: read_wav_summary_def Let_def split: if_splits)
  from s show "sample_count (header_of bytes) \<le> readable_samples bytes"
    by (simp add: read_wav_summary_def Let_def split: if_splits)
  from s show "m' = m\<lparr> sample_rate_out := sint (sample_rate (header_of bytes)),
                  pcm_data := decoded bytes \<rparr>"
    by (simp add: read_wav_summary_def Let_def split: if_splits)
qed

lemma normalized_nth16:
  assumes "bits_per_sample (header_of bytes) = 16" and "k < length (normalized bytes)"
  shows "\<exists>w. normalized bytes ! k = sample16 w"
  using assms by (auto simp: normalized_def Let_def)

lemma normalized_abs:
  assumes "x \<in> set (normalized bytes)"
  shows "\<bar>x\<bar> \<le> 1"
  using assms by (auto simp: normalized_def Let_def sample16_abs sample32_abs split: if_splits)

lemma normalized_grid:
  assumes "k < length (normalized bytes)"
  shows "\<exists>z. normalized bytes ! k = real_of_int z / 2 ^ 31"
proof (cases "bits_per_sample (header_of bytes) = 16")
  case True
  with assms obtain w where "normalized bytes ! k = sample16 w"
    by (auto simp: normalized_def Let_def)
  then show ?thesis by (simp only: sample16_grid)
next
  case False
  with assms obtain w where "normalized bytes ! k = sample32 w"
    by (auto simp: normalized_def Let_def)
  then show ?thesis by (simp only: sample32_grid)
qed

lemma decoded_abs:
  assumes "x \<in> set (decoded bytes)"
  shows "\<bar>x\<bar> \<le> 1"
proof (cases "num_channels (header_of bytes) = 2")
  case False
  with assms show ?thesis by (simp add: decoded_def normalized_abs)
next
  case True
  with assms obtain i where i: "i < length (normalized bytes) div 2"
    and x: "x = float_mean (normalized bytes ! (2 * i)) (normalized bytes ! (2 * i + 1))"
    by (auto simp: decoded_def mono_of_def)
  from i have "2 * i < length (normalized bytes)" and "2 * i + 1 < length (normalized bytes)"
    by simp_all
  then have "normalized bytes ! (2 * i) \<in> set (normalized bytes)"
    and "normalized bytes ! (2 * i + 1) \<in> set (normalized bytes)"
    by (simp_all only: nth_mem)
  then have "\<bar>normalized bytes ! (2 * i)\<bar> \<le> 1" and "\<bar>normalized bytes ! (2 * i + 1)\<bar> \<le> 1"
    by (simp_all only: normalized_abs)
  then show ?thesis unfolding x by (rule float_mean_abs)
qed

section \<open>The example files, evaluated\<close>

text \<open>The fields of the example headers, and what \<open>read_wav\<close> returns on each example.\<close>

lemmas header_eval = header_of_def read_header_def field_def RIFF_tag_def WAVE_tag_def
  sample_count_def readable_samples_def payload_def

lemma example_files:
  shows stereo16_file: "example_fs ''stereo16.wav'' = Some stereo16_example"
    and noncanonical_file: "example_fs ''noncanonical.wav'' = Some noncanonical_example"
    and short_file: "example_fs ''short.wav'' = Some short_example"
    and rifx_file: "example_fs ''rifx.wav'' = Some rifx_example"
    and lowercase_file: "example_fs ''lowercase.wav'' = Some lowercase_example"
    and depth8_file: "example_fs ''depth8.wav'' = Some depth8_example"
    and depth0_file: "example_fs ''depth0.wav'' = Some depth0_example"
    and truncated_file: "example_fs ''truncated.wav'' = Some truncated_example"
    and empty_stereo_file: "example_fs ''empty_stereo.wav'' = Some empty_stereo_example"
    and high_rate_file: "example_fs ''high_rate.wav'' = Some high_rate_example"
    and mono16_file: "example_fs ''mono16.wav'' = Some mono16_example"
    and empty_mono32_file: "example_fs ''empty_mono32.wav'' = Some empty_mono32_example"
    and max32_file: "example_fs ''max32.wav'' = Some max32_example"
    and stereo32_file: "example_fs ''stereo32.wav'' = Some stereo32_example"
    and missing_file: "example_fs ''missing.wav'' = None"
  by (simp_all add: example_fs_def)

lemma stereo16_header:
  "length stereo16_example = 52"
  "riff (header_of stereo16_example) = RIFF_tag"
  "wave (header_of stereo16_example) = WAVE_tag"
  "num_channels (header_of stereo16_example) = 2"
  "sample_rate (header_of stereo16_example) = 16000"
  "bits_per_sample (header_of stereo16_example) = 16"
  "data_size (header_of stereo16_example) = 8"
  "sample_count (header_of stereo16_example) = 4"
  "readable_samples stereo16_example = 4"
  by (simp_all add: header_eval stereo16_example_def)

lemma stereo16_normalized:
  "normalized stereo16_example = [1 / 2, - 1 / 2, 1 / 4, 1 / 4]"
  by (simp add: normalized_def stereo16_header payload_def)
     (simp add: stereo16_example_def sample16_exact)

lemma noncanonical_header:
  "length noncanonical_example = 52"
  "same_interpreted_fields noncanonical_example stereo16_example"
  "fmt (header_of noncanonical_example) \<noteq> fmt (header_of stereo16_example)"
  "audio_format (header_of noncanonical_example) \<noteq> audio_format (header_of stereo16_example)"
  by (simp_all add: same_interpreted_fields_def header_eval noncanonical_example_def
      stereo16_example_def)

lemma rifx_header:
  "length rifx_example = 52" "take 4 rifx_example \<noteq> RIFF_tag"
  "length lowercase_example = 52" "take 4 lowercase_example \<noteq> RIFF_tag"
  "take 4 stereo16_example = RIFF_tag" "take 4 (drop 8 stereo16_example) = WAVE_tag"
  by (simp_all add: rifx_example_def lowercase_example_def stereo16_example_def RIFF_tag_def
      WAVE_tag_def)

lemma empty_stereo_header:
  "length empty_stereo_example = 44"
  "riff (header_of empty_stereo_example) = RIFF_tag"
  "wave (header_of empty_stereo_example) = WAVE_tag"
  "num_channels (header_of empty_stereo_example) = 2"
  "sample_rate (header_of empty_stereo_example) = 16000"
  "bits_per_sample (header_of empty_stereo_example) = 16"
  "data_size (header_of empty_stereo_example) = 0"
  by (simp_all add: header_eval empty_stereo_example_def stereo16_example_def)

lemma empty_mono32_header:
  "length empty_mono32_example = 44"
  "riff (header_of empty_mono32_example) = RIFF_tag"
  "wave (header_of empty_mono32_example) = WAVE_tag"
  "num_channels (header_of empty_mono32_example) = 1"
  "sample_rate (header_of empty_mono32_example) = 16000"
  "bits_per_sample (header_of empty_mono32_example) = 32"
  "data_size (header_of empty_mono32_example) = 0"
  by (simp_all add: header_eval empty_mono32_example_def stereo16_example_def)

lemma depth8_header:
  "length depth8_example = 52"
  "riff (header_of depth8_example) = RIFF_tag"
  "wave (header_of depth8_example) = WAVE_tag"
  "sample_rate (header_of depth8_example) = 16000"
  "bits_per_sample (header_of depth8_example) = 8"
  "data_size (header_of depth8_example) = 8"
  "sample_count (header_of depth8_example) = 8"
  by (simp_all add: header_eval depth8_example_def stereo16_example_def)

lemma depth0_header:
  "length depth0_example = 52"
  "riff (header_of depth0_example) = RIFF_tag"
  "wave (header_of depth0_example) = WAVE_tag"
  "sample_rate (header_of depth0_example) = 16000"
  "bits_per_sample (header_of depth0_example) = 0"
  by (simp_all add: header_eval depth0_example_def stereo16_example_def)

lemma truncated_example_header:
  "length truncated_example = 50"
  "riff (header_of truncated_example) = RIFF_tag"
  "wave (header_of truncated_example) = WAVE_tag"
  "num_channels (header_of truncated_example) = 2"
  "sample_rate (header_of truncated_example) = 16000"
  "bits_per_sample (header_of truncated_example) = 16"
  "sample_count (header_of truncated_example) = 4"
  "readable_samples truncated_example = 3"
  by (simp_all add: header_eval truncated_example_def stereo16_example_def)

lemma stereo16_decoded: "decoded stereo16_example = [0, 1 / 4]"
proof -
  have "[0..<length [1 / 2, - 1 / 2, 1 / 4, 1 / 4 :: real] div 2] = [0, 1]"
    by code_simp
  then have "mono_of [1 / 2, - 1 / 2, 1 / 4, 1 / 4] = [float_mean (1 / 2) (- 1 / 2), float_mean (1 / 4) (1 / 4)]"
    by (simp add: mono_of_def)
  moreover have "float_mean (1 / 2) (- 1 / 2) = 0"
    by (simp add: float_mean_def f32_add_def f32_div_def f32_round_0)
  moreover have "float_mean (1 / 4) (1 / 4) = 1 / 4"
  proof -
    have a: "f32_round (1 / 2) = 1 / 2"
      using f32_round_dyadic [of 1 1] by simp
    have b: "f32_round (1 / 4) = 1 / 4"
      using f32_round_dyadic [of 1 2] by simp
    show ?thesis
      by (simp add: float_mean_def f32_add_def f32_div_def a b)
  qed
  ultimately show ?thesis
    by (simp add: decoded_def stereo16_header stereo16_normalized)
qed

lemma resize_nil:
  "resize [] 8 = [0, 0, 0, 0, 0, 0, 0, 0]" "resize [] 4 = [0, 0, 0, 0]"
  by (simp_all add: resize_def numeral_eq_Suc)

lemma example_results:
  "read_wav example_fs ''stereo16.wav'' caller_state =
     (Success, \<lparr> pcm_data = [0, 1 / 4], sample_rate_out = 16000, open_files = 0 \<rparr>)"
  "read_wav example_fs ''short.wav'' caller_state = (Failure TruncatedHeaderError, caller_state)"
  "read_wav example_fs ''rifx.wav'' caller_state = (Failure InvalidFormatError, caller_state)"
  "read_wav example_fs ''missing.wav'' caller_state = (Failure OpenError, caller_state)"
  "read_wav example_fs ''depth8.wav'' caller_state =
     (Failure (UnsupportedBitDepthError 8),
      \<lparr> pcm_data = [0, 0, 0, 0, 0, 0, 0, 0], sample_rate_out = 16000, open_files = 0 \<rparr>)"
  "read_wav example_fs ''depth0.wav'' caller_state =
     (DivisionByZero, \<lparr> pcm_data = [], sample_rate_out = 16000, open_files = 1 \<rparr>)"
  "read_wav example_fs ''truncated.wav'' caller_state =
     (Failure TruncatedPayloadError,
      \<lparr> pcm_data = [0, 0, 0, 0], sample_rate_out = 16000, open_files = 0 \<rparr>)"
proof -
  show "read_wav example_fs ''stereo16.wav'' caller_state =
     (Success, \<lparr> pcm_data = [0, 1 / 4], sample_rate_out = 16000, open_files = 0 \<rparr>)"
    using read_wav_success [of example_fs "''stereo16.wav''" stereo16_example caller_state]
    by (simp add: example_files stereo16_header stereo16_decoded caller_state_def)
  show "read_wav example_fs ''short.wav'' caller_state = (Failure TruncatedHeaderError, caller_state)"
    using read_wav_short_header [of example_fs "''short.wav''" short_example caller_state]
    by (simp add: example_files short_example_def stereo16_header)
  show "read_wav example_fs ''rifx.wav'' caller_state = (Failure InvalidFormatError, caller_state)"
    using read_wav_bad_tags [of example_fs "''rifx.wav''" rifx_example caller_state]
    by (simp add: example_files rifx_header tags_of_bytes)
  show "read_wav example_fs ''missing.wav'' caller_state = (Failure OpenError, caller_state)"
    by (simp add: read_wav_no_file example_files)
  show "read_wav example_fs ''depth8.wav'' caller_state =
     (Failure (UnsupportedBitDepthError 8),
      \<lparr> pcm_data = [0, 0, 0, 0, 0, 0, 0, 0], sample_rate_out = 16000, open_files = 0 \<rparr>)"
    using read_wav_bad_depth [of example_fs "''depth8.wav''" depth8_example caller_state]
    by (simp add: example_files depth8_header caller_state_def resize_nil)
  show "read_wav example_fs ''depth0.wav'' caller_state =
     (DivisionByZero, \<lparr> pcm_data = [], sample_rate_out = 16000, open_files = 1 \<rparr>)"
    using read_wav_div_zero [of example_fs "''depth0.wav''" depth0_example caller_state]
    by (simp add: example_files depth0_header caller_state_def)
  show "read_wav example_fs ''truncated.wav'' caller_state =
     (Failure TruncatedPayloadError,
      \<lparr> pcm_data = [0, 0, 0, 0], sample_rate_out = 16000, open_files = 0 \<rparr>)"
    using read_wav_truncated [of example_fs "''truncated.wav''" truncated_example caller_state]
    by (simp add: example_files truncated_example_header caller_state_def resize_nil)
qed

lemma high_rate_header:
  "length high_rate_example = 52"
  "riff (header_of high_rate_example) = RIFF_tag"
  "wave (header_of high_rate_example) = WAVE_tag"
  "num_channels (header_of high_rate_example) = 2"
  "bits_per_sample (header_of high_rate_example) = 16"
  "sample_count (header_of high_rate_example) = 4"
  "readable_samples high_rate_example = 4"
  "le_nat (field 24 4 (take 44 high_rate_example)) = 2147483648"
  "le_nat (field 24 4 (take 44 stereo16_example)) = 16000"
  by (simp_all add: header_eval high_rate_example_def stereo16_example_def)

lemma high_rate_success:
  "fst (read_wav example_fs ''high_rate.wav'' caller_state) = Success"
  using read_wav_success [of example_fs "''high_rate.wav''" high_rate_example caller_state]
  by (simp add: example_files high_rate_header)

lemma mono16_header:
  "length mono16_example = 48"
  "riff (header_of mono16_example) = RIFF_tag"
  "wave (header_of mono16_example) = WAVE_tag"
  "num_channels (header_of mono16_example) = 1"
  "sample_rate (header_of mono16_example) = 16000"
  "bits_per_sample (header_of mono16_example) = 16"
  "sample_count (header_of mono16_example) = 2"
  "readable_samples mono16_example = 2"
  by (simp_all add: header_eval mono16_example_def stereo16_example_def)

lemma max32_header:
  "length max32_example = 52"
  "riff (header_of max32_example) = RIFF_tag"
  "wave (header_of max32_example) = WAVE_tag"
  "num_channels (header_of max32_example) = 1"
  "sample_rate (header_of max32_example) = 16000"
  "bits_per_sample (header_of max32_example) = 32"
  "sample_count (header_of max32_example) = 2"
  "readable_samples max32_example = 2"
  by (simp_all add: header_eval max32_example_def stereo16_example_def)

lemma mono16_normalized: "normalized mono16_example = [1 / 2, - 1 / 2]"
  by (simp add: normalized_def mono16_header payload_def)
     (simp add: mono16_example_def stereo16_example_def sample16_exact)

lemma max32_normalized: "normalized max32_example = [1, - 1]"
proof -
  have "normalized max32_example = [sample32 2147483647, sample32 2147483648]"
    by (simp add: normalized_def max32_header payload_def)
       (simp add: max32_example_def stereo16_example_def)
  then show ?thesis by (simp only: sample32_extremes)
qed

lemma example_results_mono:
  "read_wav example_fs ''mono16.wav'' caller_state =
     (Success, \<lparr> pcm_data = [1 / 2, - 1 / 2], sample_rate_out = 16000, open_files = 0 \<rparr>)"
  "read_wav example_fs ''max32.wav'' caller_state =
     (Success, \<lparr> pcm_data = [1, - 1], sample_rate_out = 16000, open_files = 0 \<rparr>)"
proof -
  show "read_wav example_fs ''mono16.wav'' caller_state =
     (Success, \<lparr> pcm_data = [1 / 2, - 1 / 2], sample_rate_out = 16000, open_files = 0 \<rparr>)"
    using read_wav_success [of example_fs "''mono16.wav''" mono16_example caller_state]
    by (simp add: example_files mono16_header decoded_def mono16_normalized caller_state_def)
  show "read_wav example_fs ''max32.wav'' caller_state =
     (Success, \<lparr> pcm_data = [1, - 1], sample_rate_out = 16000, open_files = 0 \<rparr>)"
    using read_wav_success [of example_fs "''max32.wav''" max32_example caller_state]
    by (simp add: example_files max32_header decoded_def max32_normalized caller_state_def)
qed

lemma stereo32_header:
  "length stereo32_example = 52"
  "riff (header_of stereo32_example) = RIFF_tag"
  "wave (header_of stereo32_example) = WAVE_tag"
  "num_channels (header_of stereo32_example) = 2"
  "sample_rate (header_of stereo32_example) = 16000"
  "bits_per_sample (header_of stereo32_example) = 32"
  "sample_count (header_of stereo32_example) = 2"
  "readable_samples stereo32_example = 2"
  by (simp_all add: header_eval stereo32_example_def stereo16_example_def)

lemma stereo32_items:
  "int32_items (take 8 (payload stereo32_example)) = [2147483647, 128]"
  by (simp add: payload_def stereo32_example_def stereo16_example_def)

lemma stereo32_normalized: "normalized stereo32_example = [1, 1 / 16777216]"
proof -
  have "sint (128 :: 32 word) = 128" by simp
  then have "sample32 128 = 1 / 16777216"
    by (simp add: sample32_exact f32_of_int_exact)
  moreover have "normalized stereo32_example = [sample32 2147483647, sample32 128]"
    by (simp add: normalized_def stereo32_header stereo32_items)
  ultimately show ?thesis by (simp only: sample32_extremes)
qed

lemma stereo32_decoded: "decoded stereo32_example = [1 / 2]"
proof -
  have "[0..<length [1, 1 / 16777216 :: real] div 2] = [0]"
    by code_simp
  then have "mono_of [1, 1 / 16777216] = [float_mean 1 (1 / 16777216)]"
    by (simp add: mono_of_def)
  then show ?thesis
    by (simp add: decoded_def stereo32_header stereo32_normalized float_mean_stereo32)
qed

lemma stereo32_result:
  "read_wav example_fs ''stereo32.wav'' caller_state =
     (Success, \<lparr> pcm_data = [1 / 2], sample_rate_out = 16000, open_files = 0 \<rparr>)"
  using read_wav_success [of example_fs "''stereo32.wav''" stereo32_example caller_state]
  by (simp add: example_files stereo32_header stereo32_decoded caller_state_def)

section \<open>The claims\<close>

text \<open>
  Each claim about the decoder is stated right before its theorem. A theorem with
  hypotheses is followed by an instance of it on the example files.
\<close>

text \<open>
  Claim C1, as amended. After a successful call on a file that declares two channels, the
  returned sequence has length \<open>sample_count / 2\<close> and its element \<open>i\<close> is the value that
  line 101 computes in \<open>float\<close> arithmetic from the normalized samples \<open>a\<close> and \<open>b\<close> at the
  interleaved positions \<open>2i\<close> and \<open>2i + 1\<close>: the sum \<open>a + b\<close> rounded to the nearest
  binary32 value, halved. It lies within \<open>2\<^sup>-\<^sup>2\<^sup>5\<close> of the arithmetic mean \<open>(a + b) / 2\<close>,
  and for a 16-bit file it is the arithmetic mean. For any other channel count, one in
  particular, the normalized sequence is returned as it is. The returned sample rate is
  the header's.
\<close>

theorem stereo_downmix_mean:
  assumes "fs filename = Some bytes" and "read_wav fs filename m = (Success, m')"
  shows "sample_rate_out m' = sint (sample_rate (header_of bytes))
     \<and> length (normalized bytes) = sample_count (header_of bytes)
     \<and> (num_channels (header_of bytes) = 2 \<longrightarrow>
          length (pcm_data m') = sample_count (header_of bytes) div 2
          \<and> (\<forall>i < sample_count (header_of bytes) div 2.
                pcm_data m' ! i =
                  f32_round (normalized bytes ! (2 * i) + normalized bytes ! (2 * i + 1)) / 2
                \<and> \<bar>pcm_data m' ! i
                     - (normalized bytes ! (2 * i) + normalized bytes ! (2 * i + 1)) / 2\<bar>
                    \<le> 1 / 2 ^ 25))
     \<and> (num_channels (header_of bytes) = 2 \<and> bits_per_sample (header_of bytes) = 16 \<longrightarrow>
          (\<forall>i < sample_count (header_of bytes) div 2.
                pcm_data m' ! i =
                  (normalized bytes ! (2 * i) + normalized bytes ! (2 * i + 1)) / 2))
     \<and> (num_channels (header_of bytes) \<noteq> 2 \<longrightarrow> pcm_data m' = normalized bytes)"
proof -
  let ?h = "header_of bytes"
  let ?a = "\<lambda>i. normalized bytes ! (2 * i)"
  let ?b = "\<lambda>i. normalized bytes ! (2 * i + 1)"
  have m': "m' = m\<lparr> sample_rate_out := sint (sample_rate ?h), pcm_data := decoded bytes \<rparr>"
    using assms by (rule read_wav_SuccessD)
  have "bits_per_sample ?h = 16 \<or> bits_per_sample ?h = 32"
    using assms by (rule read_wav_SuccessD)
  moreover have "sample_count ?h \<le> readable_samples bytes"
    using assms by (rule read_wav_SuccessD)
  ultimately have n: "length (normalized bytes) = sample_count ?h"
    by (rule length_normalized)
  have fm: "pcm_data m' ! i = float_mean (?a i) (?b i)"
    if c: "num_channels ?h = 2" and i: "i < sample_count ?h div 2" for i
    using c i n by (simp add: m' decoded_def nth_mono_of)
  have rounded: "pcm_data m' ! i = f32_round (?a i + ?b i) / 2
      \<and> \<bar>pcm_data m' ! i - (?a i + ?b i) / 2\<bar> \<le> 1 / 2 ^ 25"
    if c: "num_channels ?h = 2" and i: "i < sample_count ?h div 2" for i
  proof -
    from i n have la: "2 * i < length (normalized bytes)"
      and lb: "2 * i + 1 < length (normalized bytes)"
      by simp_all
    from la obtain x where x: "?a i = real_of_int x / 2 ^ 31"
      using normalized_grid by blast
    from lb obtain y where y: "?b i = real_of_int y / 2 ^ 31"
      using normalized_grid by blast
    from la have "?a i \<in> set (normalized bytes)" by (simp only: nth_mem)
    then have a1: "\<bar>?a i\<bar> \<le> 1" by (rule normalized_abs)
    from lb have "?b i \<in> set (normalized bytes)" by (simp only: nth_mem)
    then have b1: "\<bar>?b i\<bar> \<le> 1" by (rule normalized_abs)
    have "float_mean (?a i) (?b i) = f32_round (?a i + ?b i) / 2"
      using x y by (rule float_mean_halved)
    moreover have "\<bar>float_mean (?a i) (?b i) - (?a i + ?b i) / 2\<bar> \<le> 1 / 2 ^ 25"
      using x y a1 b1 by (rule float_mean_error)
    ultimately show ?thesis by (simp only: fm [OF c i])
  qed
  have mean16: "pcm_data m' ! i = (?a i + ?b i) / 2"
    if c: "num_channels ?h = 2" and b: "bits_per_sample ?h = 16" and i: "i < sample_count ?h div 2"
    for i
  proof -
    from i n have "2 * i < length (normalized bytes)" and "2 * i + 1 < length (normalized bytes)"
      by simp_all
    then obtain v w where v: "?a i = sample16 v" and w: "?b i = sample16 w"
      using normalized_nth16 [OF b] by blast
    show ?thesis by (simp only: fm [OF c i] v w float_mean_sample16)
  qed
  have r: "sample_rate_out m' = sint (sample_rate ?h)" by (simp add: m')
  have l: "num_channels ?h = 2 \<longrightarrow> length (pcm_data m') = sample_count ?h div 2"
    by (simp add: m' n decoded_def length_mono_of)
  have u: "num_channels ?h \<noteq> 2 \<longrightarrow> pcm_data m' = normalized bytes"
    by (simp add: m' decoded_def)
  from r n l u rounded mean16 show ?thesis by blast
qed

theorem stereo_downmix_mean_witness:
  "sample_rate_out (snd (read_wav example_fs ''stereo16.wav'' caller_state)) = 16000
   \<and> length (pcm_data (snd (read_wav example_fs ''stereo16.wav'' caller_state))) = 2
   \<and> pcm_data (snd (read_wav example_fs ''stereo16.wav'' caller_state)) ! 0 = 0
   \<and> pcm_data (snd (read_wav example_fs ''stereo16.wav'' caller_state)) ! 1 = 1 / 4
   \<and> sample_rate_out (snd (read_wav example_fs ''mono16.wav'' caller_state)) = 16000
   \<and> pcm_data (snd (read_wav example_fs ''mono16.wav'' caller_state)) = [1 / 2, - 1 / 2]
   \<and> pcm_data (snd (read_wav example_fs ''stereo32.wav'' caller_state)) ! 0
       = f32_round (16777217 / 16777216) / 2
   \<and> \<bar>pcm_data (snd (read_wav example_fs ''stereo32.wav'' caller_state)) ! 0
        - 16777217 / 33554432\<bar> \<le> 1 / 2 ^ 25"
proof -
  obtain m1 where m1: "read_wav example_fs ''stereo16.wav'' caller_state = (Success, m1)"
    by (simp add: example_results)
  obtain m2 where m2: "read_wav example_fs ''mono16.wav'' caller_state = (Success, m2)"
    by (simp add: example_results_mono)
  obtain m3 where m3: "read_wav example_fs ''stereo32.wav'' caller_state = (Success, m3)"
    by (simp add: stereo32_result)
  note d = stereo_downmix_mean [of example_fs "''stereo16.wav''" stereo16_example caller_state m1,
      OF stereo16_file m1]
  note ex = d [THEN conjunct2, THEN conjunct2, THEN conjunct2, THEN conjunct1, rule_format]
  have "pcm_data m1 ! 0 =
          (normalized stereo16_example ! (2 * 0) + normalized stereo16_example ! (2 * 0 + 1)) / 2"
    by (rule ex) (simp_all add: stereo16_header)
  then have "pcm_data m1 ! 0 = 0"
    by (simp add: stereo16_normalized)
  moreover have "pcm_data m1 ! 1 =
          (normalized stereo16_example ! (2 * 1) + normalized stereo16_example ! (2 * 1 + 1)) / 2"
    by (rule ex) (simp_all add: stereo16_header)
  then have "pcm_data m1 ! 1 = 1 / 4"
    by (simp add: stereo16_normalized)
  moreover have "sample_rate_out m1 = 16000 \<and> length (pcm_data m1) = 2"
    using d by (simp add: stereo16_header)
  moreover have "sample_rate_out m2 = 16000 \<and> pcm_data m2 = [1 / 2, - 1 / 2]"
    using stereo_downmix_mean [of example_fs "''mono16.wav''" mono16_example caller_state m2,
        OF mono16_file m2]
    by (simp add: mono16_header mono16_normalized)
  moreover have "pcm_data m3 ! 0 = f32_round (16777217 / 16777216) / 2
      \<and> \<bar>pcm_data m3 ! 0 - 16777217 / 33554432\<bar> \<le> 1 / 2 ^ 25"
  proof -
    note e = stereo_downmix_mean [of example_fs "''stereo32.wav''" stereo32_example
        caller_state m3, OF stereo32_file m3]
    note e3 = e [THEN conjunct2, THEN conjunct2, THEN conjunct1, rule_format, THEN conjunct2,
        rule_format]
    have "pcm_data m3 ! 0 =
            f32_round (normalized stereo32_example ! (2 * 0)
              + normalized stereo32_example ! (2 * 0 + 1)) / 2
        \<and> \<bar>pcm_data m3 ! 0
             - (normalized stereo32_example ! (2 * 0)
                 + normalized stereo32_example ! (2 * 0 + 1)) / 2\<bar> \<le> 1 / 2 ^ 25"
      by (rule e3) (simp_all add: stereo32_header)
    then show ?thesis by (simp add: stereo32_normalized)
  qed
  ultimately show ?thesis unfolding m1 m2 m3 snd_conv by blast
qed

text \<open>
  Against claim C1 as stated: a 32-bit stereo file whose only frame holds the samples
  2147483647 and 128 decodes successfully; the normalized samples are 1 and \<open>2\<^sup>-\<^sup>2\<^sup>4\<close>,
  and the returned element is \<open>1 / 2\<close>, which is not their arithmetic mean.
\<close>

theorem int32_pair_mean_rounded:
  "fst (read_wav example_fs ''stereo32.wav'' caller_state) = Success
   \<and> num_channels (header_of stereo32_example) = 2
   \<and> int32_items (take 8 (payload stereo32_example)) = [2147483647, 128]
   \<and> normalized stereo32_example = [1, 1 / 16777216]
   \<and> pcm_data (snd (read_wav example_fs ''stereo32.wav'' caller_state)) = [1 / 2]
   \<and> (normalized stereo32_example ! 0 + normalized stereo32_example ! 1) / 2
       = 16777217 / 33554432
   \<and> pcm_data (snd (read_wav example_fs ''stereo32.wav'' caller_state)) ! 0
       \<noteq> (normalized stereo32_example ! 0 + normalized stereo32_example ! 1) / 2"
  by (simp add: stereo32_result stereo32_header stereo32_items stereo32_normalized)

text \<open>
  Claim C2, as amended. Every sample of a successfully decoded output lies in
  \<open>[-1, 1]\<close>. A 16-bit sample \<open>s\<close> becomes exactly \<open>s / 32768\<close>; a 32-bit sample is
  first converted to \<open>float\<close>, which rounds it to 24 significant bits, and the result is
  divided by 2147483648 without further rounding. The integer minimum maps to exactly
  \<open>-1\<close> for both depths; the 16-bit maximum maps to \<open>32767 / 32768\<close>, below 1; the
  32-bit maximum \<open>2147483647\<close> is rounded to \<open>2147483648\<close> by the conversion and maps
  to exactly \<open>1\<close>.
\<close>

theorem sample_range:
  assumes "fs filename = Some bytes" and "read_wav fs filename m = (Success, m')"
  shows "(\<forall>x \<in> set (pcm_data m'). - 1 \<le> x \<and> x \<le> 1)
     \<and> (num_channels (header_of bytes) \<noteq> 2 \<and> bits_per_sample (header_of bytes) = 16 \<longrightarrow>
          pcm_data m' =
            map sample16
              (int16_items (take (2 * sample_count (header_of bytes)) (payload bytes))))
     \<and> (num_channels (header_of bytes) \<noteq> 2 \<and> bits_per_sample (header_of bytes) = 32 \<longrightarrow>
          pcm_data m' =
            map sample32
              (int32_items (take (4 * sample_count (header_of bytes)) (payload bytes))))
     \<and> (\<forall>w. sample16 w = real_of_int (sint w) / 32768)
     \<and> (\<forall>w. sample32 w = f32_of_int (sint w) / 2147483648)
     \<and> sample16 (- 32768) = - 1 \<and> sample16 32767 = 32767 / 32768
     \<and> sample32 (- 2147483648) = - 1
     \<and> f32_of_int 2147483647 = 2147483648 \<and> sample32 2147483647 = 1"
proof -
  have m': "m' = m\<lparr> sample_rate_out := sint (sample_rate (header_of bytes)),
                    pcm_data := decoded bytes \<rparr>"
    using assms by (rule read_wav_SuccessD)
  have "- 1 \<le> x \<and> x \<le> 1" if "x \<in> set (pcm_data m')" for x
  proof -
    from that have "x \<in> set (decoded bytes)" by (simp add: m')
    then have "\<bar>x\<bar> \<le> 1" by (rule decoded_abs)
    then show ?thesis by (simp add: abs_le_iff)
  qed
  then have a: "\<forall>x \<in> set (pcm_data m'). - 1 \<le> x \<and> x \<le> 1" by blast
  have b: "\<forall>w. sample16 w = real_of_int (sint w) / 32768"
    by (simp only: sample16_exact) simp
  have c: "\<forall>w. sample32 w = f32_of_int (sint w) / 2147483648"
    by (simp only: sample32_exact) simp
  have d: "num_channels (header_of bytes) \<noteq> 2 \<and> bits_per_sample (header_of bytes) = 16 \<longrightarrow>
          pcm_data m' =
            map sample16
              (int16_items (take (2 * sample_count (header_of bytes)) (payload bytes)))"
    by (simp add: m' decoded_def normalized_def Let_def)
  have e: "num_channels (header_of bytes) \<noteq> 2 \<and> bits_per_sample (header_of bytes) = 32 \<longrightarrow>
          pcm_data m' =
            map sample32
              (int32_items (take (4 * sample_count (header_of bytes)) (payload bytes)))"
    by (simp add: m' decoded_def normalized_def Let_def)
  from a b c d e sample16_extremes sample32_extremes f32_of_int_max32 show ?thesis
    by blast
qed

theorem sample_range_witness:
  "pcm_data (snd (read_wav example_fs ''max32.wav'' caller_state)) = [1, - 1]
   \<and> - 1 \<le> pcm_data (snd (read_wav example_fs ''max32.wav'' caller_state)) ! 0
   \<and> pcm_data (snd (read_wav example_fs ''max32.wav'' caller_state)) ! 0 \<le> 1
   \<and> - 1 \<le> pcm_data (snd (read_wav example_fs ''max32.wav'' caller_state)) ! 1
   \<and> pcm_data (snd (read_wav example_fs ''max32.wav'' caller_state)) ! 1 \<le> 1
   \<and> sample32 2147483647 = 1"
proof -
  obtain m2 where m2: "read_wav example_fs ''max32.wav'' caller_state = (Success, m2)"
    by (simp add: example_results_mono)
  have "pcm_data (snd (read_wav example_fs ''max32.wav'' caller_state)) = [1, - 1]"
    by (simp add: example_results_mono)
  then have p: "pcm_data m2 = [1, - 1]"
    by (simp only: m2 snd_conv)
  note r = sample_range [of example_fs "''max32.wav''" max32_example caller_state m2,
      OF max32_file m2]
  from r have b: "\<forall>x \<in> set (pcm_data m2). - 1 \<le> x \<and> x \<le> 1" by (rule conjunct1)
  have "pcm_data m2 ! 0 \<in> set (pcm_data m2)" and "pcm_data m2 ! 1 \<in> set (pcm_data m2)"
    by (simp_all add: p)
  with b have "- 1 \<le> pcm_data m2 ! 0 \<and> pcm_data m2 ! 0 \<le> 1"
    and "- 1 \<le> pcm_data m2 ! 1 \<and> pcm_data m2 ! 1 \<le> 1"
    by blast+
  moreover from r have "sample32 2147483647 = 1" by blast
  ultimately show ?thesis by (simp add: m2 p)
qed

text \<open>
  Against claim C2 as stated: a 32-bit mono file whose first sample is the integer
  maximum \<open>2147483647\<close> decodes successfully, and its first output sample is not below 1.
\<close>

theorem int32_maximum_reaches_one:
  "fst (read_wav example_fs ''max32.wav'' caller_state) = Success
   \<and> int32_items (take 4 (payload max32_example)) = [2147483647]
   \<and> pcm_data (snd (read_wav example_fs ''max32.wav'' caller_state)) ! 0 = sample32 2147483647
   \<and> \<not> pcm_data (snd (read_wav example_fs ''max32.wav'' caller_state)) ! 0 < 1"
proof -
  have "int32_items (take 4 (payload max32_example)) = [2147483647]"
    by (simp add: payload_def max32_example_def stereo16_example_def)
  then show ?thesis
    by (simp add: example_results_mono sample32_extremes)
qed

text \<open>
  Claim C3. For a file with a full header and the two tags, a bit depth of 8 or more
  other than 16 and 32 makes the call fail with the unsupported-bit-depth error carrying
  that value. A bit depth below 8 never reaches that branch: \<open>bits_per_sample / 8\<close> is 0
  and line 62 divides \<open>data_size\<close> by it.
\<close>

theorem bit_depth_dispatch:
  assumes "fs filename = Some bytes" and "44 \<le> length bytes"
    and "riff (header_of bytes) = RIFF_tag" and "wave (header_of bytes) = WAVE_tag"
  shows "(unat (bits_per_sample (header_of bytes)) < 8 \<longrightarrow>
            fst (read_wav fs filename m) = DivisionByZero)
         \<and> (8 \<le> unat (bits_per_sample (header_of bytes))
              \<and> bits_per_sample (header_of bytes) \<noteq> 16
              \<and> bits_per_sample (header_of bytes) \<noteq> 32 \<longrightarrow>
            fst (read_wav fs filename m) =
              Failure (UnsupportedBitDepthError (unat (bits_per_sample (header_of bytes)))))"
proof -
  have "read_wav fs filename m = read_wav_summary bytes m"
    using assms(1,2) by (rule read_wav_full)
  then show ?thesis
    using assms(3,4)
    by (auto simp: read_wav_summary_def Let_def div_eq_0_iff)
qed

theorem bit_depth_dispatch_witness:
  "bits_per_sample (header_of depth0_example) = 0
   \<and> fst (read_wav example_fs ''depth0.wav'' caller_state) = DivisionByZero
   \<and> bits_per_sample (header_of depth8_example) = 8
   \<and> fst (read_wav example_fs ''depth8.wav'' caller_state) = Failure (UnsupportedBitDepthError 8)"
  using bit_depth_dispatch [of example_fs "''depth0.wav''" depth0_example caller_state]
    bit_depth_dispatch [of example_fs "''depth8.wav''" depth8_example caller_state]
  by (simp add: example_files depth0_header depth8_header)

text \<open>
  Claim C4. For a file with a full header, the two tags and a bit depth of 16 or 32, the
  call fails with the truncated-payload error exactly when the payload holds fewer whole
  samples of the declared width than \<open>sample_count = data_size / (bits_per_sample / 8)\<close>;
  and whenever it succeeds the returned sequence has the full length, \<open>sample_count\<close>,
  or \<open>sample_count / 2\<close> for two channels: it is never shortened.
\<close>

theorem truncated_payload_error:
  assumes "fs filename = Some bytes" and "44 \<le> length bytes"
    and "riff (header_of bytes) = RIFF_tag" and "wave (header_of bytes) = WAVE_tag"
    and "bits_per_sample (header_of bytes) = 16 \<or> bits_per_sample (header_of bytes) = 32"
  shows "(fst (read_wav fs filename m) = Failure TruncatedPayloadError
            \<longleftrightarrow> readable_samples bytes < sample_count (header_of bytes))
         \<and> (fst (read_wav fs filename m) = Success
            \<longleftrightarrow> sample_count (header_of bytes) \<le> readable_samples bytes)
         \<and> (fst (read_wav fs filename m) = Success \<longrightarrow>
              length (pcm_data (snd (read_wav fs filename m))) =
                (if num_channels (header_of bytes) = 2 then sample_count (header_of bytes) div 2
                 else sample_count (header_of bytes)))"
proof (cases "readable_samples bytes < sample_count (header_of bytes)")
  case True
  with assms have "read_wav fs filename m =
     (Failure TruncatedPayloadError,
      m\<lparr> sample_rate_out := sint (sample_rate (header_of bytes)),
         pcm_data := resize (pcm_data m) (sample_count (header_of bytes)) \<rparr>)"
    by (rule read_wav_truncated)
  with True show ?thesis by simp
next
  case False
  then have enough: "sample_count (header_of bytes) \<le> readable_samples bytes" by simp
  with assms have "read_wav fs filename m =
     (Success, m\<lparr> sample_rate_out := sint (sample_rate (header_of bytes)),
                 pcm_data := decoded bytes \<rparr>)"
    by (rule read_wav_success)
  with False show ?thesis by (simp add: length_decoded [OF assms(5) enough])
qed

theorem truncated_payload_error_witness:
  "readable_samples truncated_example = 3 \<and> sample_count (header_of truncated_example) = 4
   \<and> fst (read_wav example_fs ''truncated.wav'' caller_state) = Failure TruncatedPayloadError
   \<and> fst (read_wav example_fs ''stereo16.wav'' caller_state) = Success
   \<and> length (pcm_data (snd (read_wav example_fs ''stereo16.wav'' caller_state))) = 2"
  using truncated_payload_error [of example_fs "''truncated.wav''" truncated_example caller_state]
    truncated_payload_error [of example_fs "''stereo16.wav''" stereo16_example caller_state]
  by (simp add: example_files truncated_example_header stereo16_header)

text \<open>
  Claim C5. Among files that hold a full header, the call fails with the invalid-format
  error exactly when the first four bytes differ from \<open>RIFF\<close> or bytes 8 to 11 differ
  from \<open>WAVE\<close>, byte for byte. No other header field is validated: a second file with
  the same payload and the same \<open>riff\<close>, \<open>wave\<close>, \<open>num_channels\<close>, \<open>sample_rate\<close>,
  \<open>bits_per_sample\<close> and \<open>data_size\<close> gives the same result, whatever its \<open>file_size\<close>,
  \<open>fmt\<close>, \<open>fmt_size\<close>, \<open>audio_format\<close>, \<open>byte_rate\<close>, \<open>block_align\<close> and \<open>data\<close> tag are.
\<close>

theorem invalid_format_error:
  assumes "fs filename = Some bytes" and "44 \<le> length bytes"
    and "fs' filename' = Some bytes'" and "44 \<le> length bytes'"
    and "same_interpreted_fields bytes' bytes"
  shows "(fst (read_wav fs filename m) = Failure InvalidFormatError
            \<longleftrightarrow> take 4 bytes \<noteq> RIFF_tag \<or> take 4 (drop 8 bytes) \<noteq> WAVE_tag)
         \<and> read_wav fs' filename' m = read_wav fs filename m"
proof
  have "read_wav fs filename m = read_wav_summary bytes m"
    using assms(1,2) by (rule read_wav_full)
  then show "fst (read_wav fs filename m) = Failure InvalidFormatError
            \<longleftrightarrow> take 4 bytes \<noteq> RIFF_tag \<or> take 4 (drop 8 bytes) \<noteq> WAVE_tag"
    by (auto simp: read_wav_summary_def Let_def tags_of_bytes [OF assms(2)])
next
  have "read_wav fs' filename' m = read_wav_summary bytes' m"
    using assms(3,4) by (rule read_wav_full)
  also have "\<dots> = read_wav_summary bytes m"
    using assms(5) by (intro read_wav_summary_cong) (simp_all add: same_interpreted_fields_def)
  also have "\<dots> = read_wav fs filename m"
    using assms(1,2) by (rule read_wav_full [symmetric])
  finally show "read_wav fs' filename' m = read_wav fs filename m" .
qed

theorem invalid_format_error_witness:
  "fst (read_wav example_fs ''rifx.wav'' caller_state) = Failure InvalidFormatError
   \<and> fst (read_wav example_fs ''lowercase.wav'' caller_state) = Failure InvalidFormatError
   \<and> fst (read_wav example_fs ''stereo16.wav'' caller_state) \<noteq> Failure InvalidFormatError
   \<and> fmt (header_of noncanonical_example) \<noteq> fmt (header_of stereo16_example)
   \<and> read_wav example_fs ''noncanonical.wav'' caller_state
       = read_wav example_fs ''stereo16.wav'' caller_state"
proof -
  have s: "same_interpreted_fields rifx_example rifx_example"
    "same_interpreted_fields lowercase_example lowercase_example"
    by (simp_all add: same_interpreted_fields_def)
  have 1: "fst (read_wav example_fs ''rifx.wav'' caller_state) = Failure InvalidFormatError"
    using invalid_format_error [of example_fs "''rifx.wav''" rifx_example
        example_fs "''rifx.wav''" rifx_example caller_state]
    by (simp add: example_files rifx_header s)
  have 2: "fst (read_wav example_fs ''lowercase.wav'' caller_state) = Failure InvalidFormatError"
    using invalid_format_error [of example_fs "''lowercase.wav''" lowercase_example
        example_fs "''lowercase.wav''" lowercase_example caller_state]
    by (simp add: example_files rifx_header s)
  have 3: "fst (read_wav example_fs ''stereo16.wav'' caller_state) \<noteq> Failure InvalidFormatError
     \<and> read_wav example_fs ''noncanonical.wav'' caller_state
       = read_wav example_fs ''stereo16.wav'' caller_state"
    using invalid_format_error [of example_fs "''stereo16.wav''" stereo16_example
        example_fs "''noncanonical.wav''" noncanonical_example caller_state]
    by (simp add: example_files rifx_header noncanonical_header
        stereo16_header)
  from 1 2 3 noncanonical_header(3) show ?thesis by simp
qed

text \<open>
  Claim C6, as amended. Every failure is reported through the result of the call, and
  what the caller's variables hold afterwards depends on the failure: after an open
  error, a truncated header or invalid format tags the sample vector and the sample rate
  are untouched; after an unsupported bit depth or a truncated payload the sample rate
  already holds the header's rate and the vector has been resized to \<open>sample_count\<close>
  elements (its old prefix, then zeros), with no decoded sample in it. Only after success
  do they hold the decoded sequence and its rate.
\<close>

theorem failure_out_state:
  "(fst (read_wav fs filename m) = Success \<longrightarrow>
      (\<exists>bytes. fs filename = Some bytes
         \<and> snd (read_wav fs filename m) =
             m\<lparr> sample_rate_out := sint (sample_rate (header_of bytes)),
                pcm_data := decoded bytes \<rparr>))
   \<and> (fst (read_wav fs filename m) = Failure OpenError
        \<or> fst (read_wav fs filename m) = Failure TruncatedHeaderError
        \<or> fst (read_wav fs filename m) = Failure InvalidFormatError \<longrightarrow>
      snd (read_wav fs filename m) = m)
   \<and> (fst (read_wav fs filename m) = Failure TruncatedPayloadError
        \<or> (\<exists>b. fst (read_wav fs filename m) = Failure (UnsupportedBitDepthError b)) \<longrightarrow>
      (\<exists>bytes. fs filename = Some bytes
         \<and> snd (read_wav fs filename m) =
             m\<lparr> sample_rate_out := sint (sample_rate (header_of bytes)),
                pcm_data := resize (pcm_data m) (sample_count (header_of bytes)) \<rparr>))"
proof (cases "fs filename")
  case None
  then show ?thesis by (simp add: read_wav_no_file)
next
  case (Some bytes)
  show ?thesis
  proof (cases "length bytes < 44")
    case True
    with Some show ?thesis by (simp add: read_wav_short_header)
  next
    case False
    with Some have r: "read_wav fs filename m = read_wav_summary bytes m"
      by (simp add: read_wav_cases)
    show ?thesis
      unfolding r using Some by (simp add: read_wav_summary_def Let_def)
  qed
qed

theorem failure_out_state_witness:
  "snd (read_wav example_fs ''missing.wav'' caller_state) = caller_state
   \<and> snd (read_wav example_fs ''short.wav'' caller_state) = caller_state
   \<and> snd (read_wav example_fs ''rifx.wav'' caller_state) = caller_state
   \<and> snd (read_wav example_fs ''truncated.wav'' caller_state) =
       \<lparr> pcm_data = [0, 0, 0, 0], sample_rate_out = 16000, open_files = 0 \<rparr>
   \<and> snd (read_wav example_fs ''depth8.wav'' caller_state) =
       \<lparr> pcm_data = [0, 0, 0, 0, 0, 0, 0, 0], sample_rate_out = 16000, open_files = 0 \<rparr>
   \<and> snd (read_wav example_fs ''stereo16.wav'' caller_state) =
       \<lparr> pcm_data = [0, 1 / 4], sample_rate_out = 16000, open_files = 0 \<rparr>"
  using failure_out_state [of example_fs "''missing.wav''" caller_state]
    failure_out_state [of example_fs "''short.wav''" caller_state]
    failure_out_state [of example_fs "''rifx.wav''" caller_state]
    failure_out_state [of example_fs "''truncated.wav''" caller_state]
    failure_out_state [of example_fs "''depth8.wav''" caller_state]
    failure_out_state [of example_fs "''stereo16.wav''" caller_state]
  by (simp add: example_results)

text \<open>
  Against claim C6 as stated: the call on a file that declares 8 bits per sample fails,
  and the caller's sample rate, 0 before the call, is 16000 after it, and the caller's
  empty vector holds eight zeros.
\<close>

theorem failure_changes_out_state:
  "fst (read_wav example_fs ''depth8.wav'' caller_state) = Failure (UnsupportedBitDepthError 8)
   \<and> sample_rate_out caller_state = 0
   \<and> sample_rate_out (snd (read_wav example_fs ''depth8.wav'' caller_state)) = 16000
   \<and> pcm_data caller_state = []
   \<and> pcm_data (snd (read_wav example_fs ''depth8.wav'' caller_state)) = [0, 0, 0, 0, 0, 0, 0, 0]"
  by (simp add: example_results) (simp add: caller_state_def)

text \<open>
  Claim C7. If the opened file holds fewer than 44 bytes, the call fails with the
  truncated-header error and leaves the caller's state as it was, whatever the bytes are:
  a partial header is never interpreted. Conversely a file of 44 bytes or more never
  fails with that error, so the error is raised exactly when the one \<open>fread\<close> of the
  header does not deliver the whole struct.
\<close>

theorem truncated_header_error:
  assumes "fs filename = Some bytes"
  shows "(length bytes < 44 \<longrightarrow> read_wav fs filename m = (Failure TruncatedHeaderError, m))
         \<and> (fst (read_wav fs filename m) = Failure TruncatedHeaderError \<longleftrightarrow> length bytes < 44)"
proof (cases "length bytes < 44")
  case True
  then show ?thesis
    using read_wav_short_header [where fs = fs and filename = filename, OF assms] by simp
next
  case False
  then have "44 \<le> length bytes" by simp
  then have "read_wav fs filename m = read_wav_summary bytes m"
    using read_wav_full [where fs = fs and filename = filename, OF assms] by simp
  then have "fst (read_wav fs filename m) \<noteq> Failure TruncatedHeaderError"
    by (simp add: read_wav_summary_def Let_def)
  with False show ?thesis by simp
qed

theorem truncated_header_error_witness:
  "example_fs ''short.wav'' = Some short_example \<and> length short_example = 43
   \<and> read_wav example_fs ''short.wav'' caller_state = (Failure TruncatedHeaderError, caller_state)
   \<and> fst (read_wav example_fs ''stereo16.wav'' caller_state) \<noteq> Failure TruncatedHeaderError"
proof -
  have l: "length short_example = 43"
    by (simp add: short_example_def stereo16_header)
  show ?thesis
    using truncated_header_error [of example_fs "''short.wav''" short_example caller_state]
      truncated_header_error [of example_fs "''stereo16.wav''" stereo16_example caller_state]
    by (simp add: l stereo16_header example_files)
qed

text \<open>
  Claim C8. A file with a full header, the two tags, a bit depth of 16 or 32 and
  \<open>data_size = 0\<close> decodes successfully to the empty sample sequence and the header's
  sample rate, whatever its channel count.
\<close>

theorem empty_payload_success:
  assumes "fs filename = Some bytes" and "44 \<le> length bytes"
    and "riff (header_of bytes) = RIFF_tag" and "wave (header_of bytes) = WAVE_tag"
    and "bits_per_sample (header_of bytes) = 16 \<or> bits_per_sample (header_of bytes) = 32"
    and "data_size (header_of bytes) = 0"
  shows "read_wav fs filename m =
           (Success, m\<lparr> sample_rate_out := sint (sample_rate (header_of bytes)),
                       pcm_data := [] \<rparr>)"
proof -
  have "sample_count (header_of bytes) \<le> readable_samples bytes"
    by (simp add: decoded_empty(1) [OF assms(6)])
  with assms(1-5) have "read_wav fs filename m =
           (Success, m\<lparr> sample_rate_out := sint (sample_rate (header_of bytes)),
                       pcm_data := decoded bytes \<rparr>)"
    by (rule read_wav_success)
  then show ?thesis by (simp add: decoded_empty(2) [OF assms(6)])
qed

theorem empty_payload_success_witness:
  "read_wav example_fs ''empty_stereo.wav'' caller_state =
     (Success, \<lparr> pcm_data = [], sample_rate_out = 16000, open_files = 0 \<rparr>)
   \<and> read_wav example_fs ''empty_mono32.wav'' caller_state =
     (Success, \<lparr> pcm_data = [], sample_rate_out = 16000, open_files = 0 \<rparr>)"
  using empty_payload_success [of example_fs "''empty_stereo.wav''" empty_stereo_example
      caller_state]
    empty_payload_success [of example_fs "''empty_mono32.wav''" empty_mono32_example
      caller_state]
  by (simp add: example_files empty_stereo_header empty_mono32_header caller_state_def)

text \<open>
  Claim C9. On every path on which the call returns, the success path and each failure
  path, the number of open file handles after the call is the number before it: the
  handle that \<open>fopen\<close> acquired has been closed. One path does not close it: for a file
  with a full header, the two tags and a bit depth below 8, an unsupported bit depth,
  line 62 divides by zero while the handle is open, and no \<open>fclose\<close> follows; one more
  handle is open than before the call.
\<close>

theorem file_handle_closed:
  "(fst (read_wav fs filename m) \<noteq> DivisionByZero \<longrightarrow>
      open_files (snd (read_wav fs filename m)) = open_files m)
   \<and> (fst (read_wav fs filename m) = DivisionByZero \<longrightarrow>
      open_files (snd (read_wav fs filename m)) = open_files m + 1)
   \<and> (fst (read_wav fs filename m) = DivisionByZero \<longleftrightarrow>
        (\<exists>bytes. fs filename = Some bytes \<and> 44 \<le> length bytes
           \<and> riff (header_of bytes) = RIFF_tag \<and> wave (header_of bytes) = WAVE_tag
           \<and> unat (bits_per_sample (header_of bytes)) < 8))"
proof (cases "fs filename")
  case None
  then show ?thesis by (simp add: read_wav_no_file)
next
  case (Some bytes)
  show ?thesis
  proof (cases "length bytes < 44")
    case True
    with Some show ?thesis by (simp add: read_wav_short_header)
  next
    case False
    with Some have r: "read_wav fs filename m = read_wav_summary bytes m"
      by (simp add: read_wav_cases)
    have a: "fst (read_wav_summary bytes m) \<noteq> DivisionByZero \<longrightarrow>
        open_files (snd (read_wav_summary bytes m)) = open_files m"
      by (simp add: read_wav_summary_def Let_def)
    have b: "fst (read_wav_summary bytes m) = DivisionByZero \<longrightarrow>
        open_files (snd (read_wav_summary bytes m)) = open_files m + 1"
      by (simp add: read_wav_summary_def Let_def)
    have c: "fst (read_wav_summary bytes m) = DivisionByZero \<longleftrightarrow>
        riff (header_of bytes) = RIFF_tag \<and> wave (header_of bytes) = WAVE_tag
        \<and> unat (bits_per_sample (header_of bytes)) < 8"
      by (auto simp: read_wav_summary_def Let_def div_eq_0_iff)
    from a b c False show ?thesis by (simp add: r Some)
  qed
qed

theorem file_handle_closed_witness:
  "fst (read_wav example_fs ''stereo16.wav'' caller_state) = Success
   \<and> open_files (snd (read_wav example_fs ''stereo16.wav'' caller_state))
       = open_files caller_state
   \<and> open_files (snd (read_wav example_fs ''short.wav'' caller_state)) = open_files caller_state
   \<and> open_files (snd (read_wav example_fs ''rifx.wav'' caller_state)) = open_files caller_state
   \<and> open_files (snd (read_wav example_fs ''depth8.wav'' caller_state)) = open_files caller_state
   \<and> open_files (snd (read_wav example_fs ''truncated.wav'' caller_state))
       = open_files caller_state
   \<and> bits_per_sample (header_of depth0_example) = 0
   \<and> fst (read_wav example_fs ''depth0.wav'' caller_state) = DivisionByZero
   \<and> open_files (snd (read_wav example_fs ''depth0.wav'' caller_state))
       = open_files caller_state + 1"
  using file_handle_closed [of example_fs "''stereo16.wav''" caller_state]
    file_handle_closed [of example_fs "''short.wav''" caller_state]
    file_handle_closed [of example_fs "''rifx.wav''" caller_state]
    file_handle_closed [of example_fs "''depth8.wav''" caller_state]
    file_handle_closed [of example_fs "''truncated.wav''" caller_state]
    file_handle_closed [of example_fs "''depth0.wav''" caller_state]
  by (simp add: example_results depth0_header)

text \<open>
  Claim C10, as amended. For every successful call the sample rate handed back is the
  32-bit little-endian number of bytes 24 to 27 of the file read as a two's-complement
  \<open>int\<close>: the field value itself up to \<open>2\<^sup>3\<^sup>1 - 1\<close>, and the field value minus
  \<open>2\<^sup>3\<^sup>2\<close> from \<open>2\<^sup>3\<^sup>1\<close> on.
\<close>

theorem sample_rate_returned:
  assumes "fs filename = Some bytes" and "read_wav fs filename m = (Success, m')"
    and "rate = le_nat [bytes ! 24, bytes ! 25, bytes ! 26, bytes ! 27]"
  shows "rate = unat (bytes ! 24) + 256 * unat (bytes ! 25) + 65536 * unat (bytes ! 26)
                  + 16777216 * unat (bytes ! 27)
         \<and> rate < 2 ^ 32
         \<and> sample_rate_out m' = (if rate < 2 ^ 31 then int rate else int rate - 2 ^ 32)"
proof -
  have l: "44 \<le> length bytes" using assms(1,2) by (rule read_wav_SuccessD)
  have m': "m' = m\<lparr> sample_rate_out := sint (sample_rate (header_of bytes)),
                  pcm_data := decoded bytes \<rparr>"
    using assms(1,2) by (rule read_wav_SuccessD)
  have "rate < 256 ^ length [bytes ! 24, bytes ! 25, bytes ! 26, bytes ! 27]"
    unfolding assms(3) by (rule le_nat_bound)
  then have b: "rate < 2 ^ 32" by simp
  have "sample_rate (header_of bytes) = word_of_nat rate"
    by (simp add: header_of_def read_header_def field_rate_nth [OF l] assms(3))
  then have "sample_rate_out m' = sint (word_of_nat rate :: 32 word)"
    by (simp add: m')
  with b show ?thesis
    by (simp add: sint_of_nat32 [OF b]) (simp add: assms(3))
qed

theorem sample_rate_returned_witness:
  "sample_rate_out (snd (read_wav example_fs ''stereo16.wav'' caller_state)) = 16000
   \<and> le_nat [high_rate_example ! 24, high_rate_example ! 25, high_rate_example ! 26,
              high_rate_example ! 27] = 2147483648
   \<and> sample_rate_out (snd (read_wav example_fs ''high_rate.wav'' caller_state)) = - 2147483648"
proof -
  obtain m1 where m1: "read_wav example_fs ''stereo16.wav'' caller_state = (Success, m1)"
    by (simp add: example_results)
  obtain m2 where m2: "read_wav example_fs ''high_rate.wav'' caller_state = (Success, m2)"
    using high_rate_success by (cases "read_wav example_fs ''high_rate.wav'' caller_state") simp
  have r1: "le_nat [stereo16_example ! 24, stereo16_example ! 25, stereo16_example ! 26,
              stereo16_example ! 27] = 16000"
  proof -
    have "44 \<le> length stereo16_example" by (simp add: stereo16_header)
    from field_rate_nth [OF this, symmetric] show ?thesis by (simp only: high_rate_header)
  qed
  have r2: "le_nat [high_rate_example ! 24, high_rate_example ! 25, high_rate_example ! 26,
              high_rate_example ! 27] = 2147483648"
  proof -
    have "44 \<le> length high_rate_example" by (simp add: high_rate_header)
    from field_rate_nth [OF this, symmetric] show ?thesis by (simp only: high_rate_header)
  qed
  have "sample_rate_out m1 = 16000"
    using sample_rate_returned [of example_fs "''stereo16.wav''" stereo16_example caller_state m1
        16000, OF stereo16_file m1 r1 [symmetric]]
    by simp
  moreover have "sample_rate_out m2 = - 2147483648"
    using sample_rate_returned [of example_fs "''high_rate.wav''" high_rate_example caller_state
        m2 2147483648, OF high_rate_file m2 r2 [symmetric]]
    by simp
  ultimately show ?thesis using r2 unfolding m1 m2 snd_conv by blast
qed

text \<open>
  Against claim C10 as stated: a successful call on a file whose sample-rate field holds
  \<open>2\<^sup>3\<^sup>1 = 2147483648\<close> hands back \<open>-2147483648\<close>.
\<close>

theorem sample_rate_counterexample:
  "fst (read_wav example_fs ''high_rate.wav'' caller_state) = Success
   \<and> unat (sample_rate (header_of high_rate_example)) = 2147483648
   \<and> sample_rate_out (snd (read_wav example_fs ''high_rate.wav'' caller_state)) = - 2147483648
   \<and> sample_rate_out (snd (read_wav example_fs ''high_rate.wav'' caller_state))
       \<noteq> int (unat (sample_rate (header_of high_rate_example)))"
proof -
  have s: "sample_rate (header_of high_rate_example) = 2147483648"
    by (simp add: header_eval high_rate_example_def stereo16_example_def)
  have "read_wav example_fs ''high_rate.wav'' caller_state =
          (Success, caller_state\<lparr> sample_rate_out := sint (sample_rate (header_of high_rate_example)),
                                  pcm_data := decoded high_rate_example \<rparr>)"
    using read_wav_success [of example_fs "''high_rate.wav''" high_rate_example caller_state]
    by (simp add: example_files high_rate_header)
  then show ?thesis by (simp add: s)
qed

end
